theory Spec2Isabelle
  imports Complex_Main "HOL-Library.Multiset"
begin

section \<open>The word-list curation script \<^verbatim>\<open>server/scripts/curate_words.py\<close>\<close>

text \<open>
  The script reads a word list, scores every word with \<^verbatim>\<open>wordfreq.zipf_frequency\<close>,
  splits the scored words by a threshold and writes three files: the answer list, the
  allowed-guesses list and a CSV report of the rejected words.

  Conventions of the embedding:
  \<^item> A Python \<^verbatim>\<open>str\<close> is a \<^typ>\<open>string\<close>; a \<^typ>\<open>char\<close> stands for the code point of
    the same number. The specification puts other languages and character sets out of
    scope (section 1) and describes the word-list file as plain text with one upper-case
    word per line (section 6), so text is ASCII: the model of \<^verbatim>\<open>strip\<close>,
    \<^verbatim>\<open>splitlines\<close>, \<^verbatim>\<open>upper\<close> and \<^verbatim>\<open>lower\<close> is Python's behaviour on code points
    below 128 (\<open>is_ascii\<close>). Python also has whitespace, line boundaries and letters
    from code point 128 on (U+0085 and U+00A0 are whitespace, U+0085 ends a line,
    U+00E9 has the upper case U+00C9); there the model does not follow it, and what is
    proved about the loader is stated for ASCII content.
  \<^item> A Python \<^verbatim>\<open>float\<close> is a \<open>pyfloat\<close>: a real number, one of the two infinities, or
    NaN. The script only compares and prints floats, so no rounding of arithmetic is
    involved; \<^verbatim>\<open>-0.0\<close> is identified with \<^verbatim>\<open>0.0\<close>.
  \<^item> The file system is a map from paths to the text of regular files. Text is written
    with the POSIX line separator (\<^verbatim>\<open>write_text\<close> leaves a line feed as it is).
    Every write is also appended to a trace, so that "is written" can be told from
    "was already there".
  \<^item> \<^verbatim>\<open>zipf_frequency(_, "en")\<close> belongs to the external package \<^verbatim>\<open>wordfreq\<close>; it is a
    parameter \<open>zipf\<close> of the model, and every call is recorded in the world.
\<close>

subsection \<open>Floats\<close>

datatype pyfloat = Finite real | PosInf | NegInf | NaN

text \<open>Python's \<^verbatim>\<open><\<close> and \<^verbatim>\<open>>=\<close> on floats (IEEE 754: every comparison with NaN is false).\<close>

fun lt_f :: "pyfloat \<Rightarrow> pyfloat \<Rightarrow> bool" where
  "lt_f NaN _ = False"
| "lt_f _ NaN = False"
| "lt_f (Finite a) (Finite b) = (a < b)"
| "lt_f (Finite a) PosInf = True"
| "lt_f (Finite a) NegInf = False"
| "lt_f PosInf _ = False"
| "lt_f NegInf NegInf = False"
| "lt_f NegInf _ = True"

fun ge_f :: "pyfloat \<Rightarrow> pyfloat \<Rightarrow> bool" where
  "ge_f NaN _ = False"
| "ge_f _ NaN = False"
| "ge_f (Finite a) (Finite b) = (b \<le> a)"
| "ge_f (Finite a) PosInf = False"
| "ge_f (Finite a) NegInf = True"
| "ge_f PosInf _ = True"
| "ge_f NegInf NegInf = True"
| "ge_f NegInf _ = False"

text \<open>Python's \<^verbatim>\<open><=\<close>, used to state orderings of thresholds and of report rows.\<close>

definition le_f :: "pyfloat \<Rightarrow> pyfloat \<Rightarrow> bool" where
  "le_f a b = ge_f b a"

subsection \<open>Strings\<close>

type_synonym path = string

definition LF :: char where "LF = CHR 0x0A"
definition CR :: char where "CR = CHR 0x0D"


text \<open>
  \<^verbatim>\<open>str.isspace\<close> on ASCII: tab, LF, VT, FF, CR, the four separators FS GS RS US, space.
  (Beyond ASCII Python has more whitespace, such as U+0085 and U+00A0.)
\<close>

definition is_space :: "char \<Rightarrow> bool" where
  "is_space c = (c \<in> set [CHR 0x09, CHR 0x0A, CHR 0x0B, CHR 0x0C, CHR 0x0D,
                           CHR 0x1C, CHR 0x1D, CHR 0x1E, CHR 0x1F, CHR 0x20])"

text \<open>
  The line boundaries of \<^verbatim>\<open>str.splitlines\<close> on ASCII: LF, VT, FF, CR, FS, GS, RS.
  (Beyond ASCII Python has three more: U+0085, U+2028, U+2029.)
\<close>

definition is_linebreak :: "char \<Rightarrow> bool" where
  "is_linebreak c = (c \<in> set [CHR 0x0A, CHR 0x0B, CHR 0x0C, CHR 0x0D,
                               CHR 0x1C, CHR 0x1D, CHR 0x1E])"

definition strip :: "string \<Rightarrow> string" where
  "strip s = rev (dropWhile is_space (rev (dropWhile is_space s)))"

text \<open>
  \<^verbatim>\<open>str.upper\<close> and \<^verbatim>\<open>str.lower\<close> on ASCII: the letters a-z and A-Z change case, every
  other ASCII character stays. (Beyond ASCII Python maps more letters, some to several
  characters.)
\<close>

definition upper_char :: "char \<Rightarrow> char" where
  "upper_char c = (let n = (of_char c :: nat) in
     if 97 \<le> n \<and> n \<le> 122 then char_of (n - 32) else c)"

definition lower_char :: "char \<Rightarrow> char" where
  "lower_char c = (let n = (of_char c :: nat) in
     if 65 \<le> n \<and> n \<le> 90 then char_of (n + 32) else c)"

definition upper :: "string \<Rightarrow> string" where
  "upper s = map upper_char s"

definition lower :: "string \<Rightarrow> string" where
  "lower s = map lower_char s"

text \<open>
  \<^verbatim>\<open>str.splitlines()\<close>: the text is cut at every line boundary, CR LF counting as one;
  the boundaries are dropped, and no empty line is added after a final boundary.
  \<open>cur\<close> is the line read so far.
\<close>

fun splitlines_from :: "string \<Rightarrow> string \<Rightarrow> string list" where
  "splitlines_from cur [] = (if cur = [] then [] else [cur])"
| "splitlines_from cur [c] =
     (if is_linebreak c then [cur] else [cur @ [c]])"
| "splitlines_from cur (c # d # cs) =
     (if c = CR \<and> d = LF then cur # splitlines_from [] cs
      else if is_linebreak c then cur # splitlines_from [] (d # cs)
      else splitlines_from (cur @ [c]) (d # cs))"

definition splitlines :: "string \<Rightarrow> string list" where
  "splitlines s = splitlines_from [] s"

text \<open>
  Reading a file in text mode with the default \<^verbatim>\<open>newline=None\<close> (as \<^verbatim>\<open>Path.read_text\<close>
  does) turns CR LF and a lone CR into LF.
\<close>

fun universal_newlines :: "string \<Rightarrow> string" where
  "universal_newlines [] = []"
| "universal_newlines [c] = (if c = CR then [LF] else [c])"
| "universal_newlines (c # d # cs) =
     (if c = CR \<and> d = LF then LF # universal_newlines cs
      else if c = CR then LF # universal_newlines (d # cs)
      else c # universal_newlines (d # cs))"

text \<open>\<^verbatim>\<open>sep.join(words)\<close>.\<close>

fun join :: "string \<Rightarrow> string list \<Rightarrow> string" where
  "join sep [] = []"
| "join sep [x] = x"
| "join sep (x # y # ys) = x @ sep @ join sep (y # ys)"

text \<open>Python compares strings code point by code point; a proper prefix is smaller.\<close>

fun str_lt :: "string \<Rightarrow> string \<Rightarrow> bool" where
  "str_lt _ [] = False"
| "str_lt [] (_ # _) = True"
| "str_lt (x # xs) (y # ys) =
     ((of_char x :: nat) < of_char y \<or> (x = y \<and> str_lt xs ys))"

definition str_le :: "string \<Rightarrow> string \<Rightarrow> bool" where
  "str_le a b = (\<not> str_lt b a)"

subsection \<open>Sorting\<close>

text \<open>
  \<^verbatim>\<open>sorted(xs)\<close> and \<^verbatim>\<open>sorted(xs, key=k)\<close> are stable and use only \<^verbatim>\<open><\<close>. The model is
  the stable insertion sort for a given \<open>lt\<close>: an element is put before the first
  element that is not smaller than it, and the elements are inserted from the right, so
  that of two equal elements the one that came first stays first.
\<close>

fun insort_lt :: "('a \<Rightarrow> 'a \<Rightarrow> bool) \<Rightarrow> 'a \<Rightarrow> 'a list \<Rightarrow> 'a list" where
  "insort_lt lt x [] = [x]"
| "insort_lt lt x (y # ys) =
     (if lt y x then y # insort_lt lt x ys else x # y # ys)"

definition sorted_py :: "('a \<Rightarrow> 'a \<Rightarrow> bool) \<Rightarrow> 'a list \<Rightarrow> 'a list" where
  "sorted_py lt xs = foldr (insort_lt lt) xs []"

subsection \<open>Formatting numbers\<close>

definition digit_char :: "nat \<Rightarrow> char" where
  "digit_char d = char_of (48 + d)"

text \<open>\<^verbatim>\<open>str(n)\<close> for a natural number, as in \<^verbatim>\<open>f"{len(scored)}"\<close>.\<close>

fun str_nat :: "nat \<Rightarrow> string" where
  "str_nat n = (if n < 10 then [digit_char n] else str_nat (n div 10) @ [digit_char (n mod 10)])"

declare str_nat.simps [simp del]

definition round_half_even :: "real \<Rightarrow> int" where
  "round_half_even y = (let f = \<lfloor>y\<rfloor>; d = y - of_int f in
     if d < 1 / 2 then f else if 1 / 2 < d then f + 1
     else if even f then f else f + 1)"

text \<open>The \<open>p\<close> fraction digits of the scaled value \<open>m\<close>, padded with zeros on the left.\<close>

definition frac_digits :: "nat \<Rightarrow> nat \<Rightarrow> string" where
  "frac_digits p m = (let s = str_nat (m mod 10 ^ p) in
     replicate (p - length s) (CHR ''0'') @ s)"

text \<open>
  \<^verbatim>\<open>f"{x:.pf}"\<close>: fixed-point notation with \<open>p\<close> digits after the point, the exact value
  of the float rounded correctly (ties to even), a minus sign for a negative value also
  when it rounds to zero; infinities and NaN are printed by name.
\<close>

fun format_f :: "nat \<Rightarrow> pyfloat \<Rightarrow> string" where
  "format_f p NaN = ''nan''"
| "format_f p PosInf = ''inf''"
| "format_f p NegInf = ''-inf''"
| "format_f p (Finite v) =
     (let m = nat (round_half_even (\<bar>v\<bar> * 10 ^ p)) in
      (if v < 0 then ''-'' else '''') @ str_nat (m div 10 ^ p) @
      (if p = 0 then '''' else ''.'' @ frac_digits p m))"

subsection \<open>The world: files, the trace of writes, oracle calls, standard output\<close>

record world =
  files :: "path \<rightharpoonup> string"
  writes :: "(path \<times> string) list"
  oracle_calls :: "string list"
  stdout :: "string list"

datatype error = SystemExit string | FileNotFoundError path

text \<open>
  The exit status of the interpreter: 0 after a normal return, 1 after
  \<^verbatim>\<open>SystemExit\<close> with a message and after an uncaught exception.
\<close>

fun exit_status :: "error + unit \<Rightarrow> nat" where
  "exit_status (Inr _) = 0"
| "exit_status (Inl _) = 1"

definition exists_path :: "path \<Rightarrow> world \<Rightarrow> bool" where
  "exists_path p w = (files w p \<noteq> None)"

definition read_text :: "path \<Rightarrow> world \<Rightarrow> error + string" where
  "read_text p w = (case files w p of
     None \<Rightarrow> Inl (FileNotFoundError p)
   | Some raw \<Rightarrow> Inr (universal_newlines raw))"

text \<open>\<^verbatim>\<open>path.write_text(s)\<close> and closing a file opened with \<^verbatim>\<open>"w"\<close>: the file now holds \<open>s\<close>.\<close>

definition write_file :: "path \<Rightarrow> string \<Rightarrow> world \<Rightarrow> world" where
  "write_file p s w = w\<lparr>files := (files w)(p \<mapsto> s), writes := writes w @ [(p, s)]\<rparr>"

definition print :: "string \<Rightarrow> world \<Rightarrow> world" where
  "print s w = w\<lparr>stdout := stdout w @ [s]\<rparr>"

subsection \<open>The functions of the script\<close>

record WordScore =
  word :: string
  freq :: pyfloat

definition load_words :: "path \<Rightarrow> world \<Rightarrow> error + string list" where
  "load_words p w = (case read_text p w of
     Inl e \<Rightarrow> Inl e
   | Inr text \<Rightarrow> Inr [upper (strip l). l \<leftarrow> splitlines text, strip l \<noteq> []])"

definition save_words :: "path \<Rightarrow> string list \<Rightarrow> world \<Rightarrow> world" where
  "save_words p ws w = write_file p (join [LF] ws @ [LF]) w"

text \<open>
  \<^verbatim>\<open>csv.writer(fh).writerow(row)\<close> in the default dialect: a field holding a comma, a
  double quote, CR or LF is put in double quotes with its double quotes doubled; fields
  are joined by commas; the row ends with CR LF (the file is opened with
  \<^verbatim>\<open>newline=""\<close>, so this is what reaches the file).
\<close>

definition csv_needs_quotes :: "string \<Rightarrow> bool" where
  "csv_needs_quotes s = list_ex (\<lambda>c. c = CHR '','' \<or> c = CHR 0x22 \<or> c = CR \<or> c = LF) s"

definition csv_field :: "string \<Rightarrow> string" where
  "csv_field s = (if csv_needs_quotes s
     then [CHR 0x22] @ concat (map (\<lambda>c. if c = CHR 0x22 then [c, c] else [c]) s) @ [CHR 0x22]
     else s)"

definition csv_writerow :: "string list \<Rightarrow> string" where
  "csv_writerow row = join '','' (map csv_field row) @ [CR, LF]"

definition export_rejects :: "path \<Rightarrow> WordScore list \<Rightarrow> world \<Rightarrow> world" where
  "export_rejects p rejects w =
     (let fh = csv_writerow [''word'', ''zipf_frequency''];
          fh = fold (\<lambda>item fh. fh @ csv_writerow [word item, format_f 3 (freq item)]) rejects fh
      in write_file p fh w)"

text \<open>The loop of \<^verbatim>\<open>score_words\<close>; \<open>scored\<close> is the list built so far.\<close>

fun score_words_loop ::
  "(string \<Rightarrow> pyfloat) \<Rightarrow> string list \<Rightarrow> WordScore list \<Rightarrow> world \<Rightarrow> WordScore list \<times> world" where
  "score_words_loop zipf [] scored w = (scored, w)"
| "score_words_loop zipf (wd # wds) scored w =
     (let fr = zipf (lower wd);
          w' = w\<lparr>oracle_calls := oracle_calls w @ [lower wd]\<rparr>
      in score_words_loop zipf wds (scored @ [\<lparr>word = wd, freq = fr\<rparr>]) w')"

definition score_words ::
  "(string \<Rightarrow> pyfloat) \<Rightarrow> string list \<Rightarrow> world \<Rightarrow> WordScore list \<times> world" where
  "score_words zipf wds w = score_words_loop zipf wds [] w"

subsection \<open>\<^verbatim>\<open>main\<close>\<close>

record args =
  source :: path
  output_arg :: "path option"
  rejects :: path
  guesses_output :: path
  threshold :: pyfloat
  guesses_threshold :: "pyfloat option"

text \<open>
  The truth value of \<^verbatim>\<open>args.guesses_output\<close>: argparse always stores a
  \<^verbatim>\<open>pathlib.Path\<close> there (the default, or the converted argument), and a \<^verbatim>\<open>Path\<close>
  object is true. The field \<open>output_arg\<close> is \<^verbatim>\<open>args.output\<close>.
\<close>

definition truthy_path :: "path \<Rightarrow> bool" where
  "truthy_path p = True"

text \<open>The three lists \<^verbatim>\<open>main\<close> computes from the scored words (lines 99, 100, 110-112).\<close>

definition kept :: "WordScore list \<Rightarrow> pyfloat \<Rightarrow> WordScore list" where
  "kept scored t = [item. item \<leftarrow> scored, ge_f (freq item) t]"

definition dropped :: "WordScore list \<Rightarrow> pyfloat \<Rightarrow> WordScore list" where
  "dropped scored t = [item. item \<leftarrow> scored, lt_f (freq item) t]"

definition allowed :: "WordScore list \<Rightarrow> pyfloat option \<Rightarrow> string list" where
  "allowed scored g =
     (let guesses_threshold = (case g of None \<Rightarrow> NegInf | Some t \<Rightarrow> t)
      in sorted_py str_lt [word item. item \<leftarrow> scored, ge_f (freq item) guesses_threshold])"

definition main :: "(string \<Rightarrow> pyfloat) \<Rightarrow> args \<Rightarrow> world \<Rightarrow> (error + unit) \<times> world" where
  "main zipf a w =
     (let source_path = source a in
      if \<not> exists_path source_path w
      then (Inl (SystemExit (''Source file not found: '' @ source_path)), w)
      else case load_words source_path w of
        Inl e \<Rightarrow> (Inl e, w)
      | Inr wds \<Rightarrow>
         (let (scored, w) = score_words zipf wds w;
              kept_items = kept scored (threshold a);
              dropped_items = dropped scored (threshold a);
              output_path = (case output_arg a of None \<Rightarrow> source_path | Some p \<Rightarrow> p);
              w = save_words output_path (sorted_py str_lt (map word kept_items)) w;
              w = (if truthy_path (guesses_output a)
                   then save_words (guesses_output a) (allowed scored (guesses_threshold a)) w
                   else w);
              w = (if dropped_items \<noteq> []
                   then export_rejects (rejects a)
                          (sorted_py (\<lambda>x y. lt_f (freq x) (freq y)) dropped_items) w
                   else w);
              w = print (''Words loaded: '' @ str_nat (length scored)) w;
              w = print (''Kept: '' @ str_nat (length kept_items) @ '' (threshold >= '' @
                         format_f 2 (threshold a) @ '')'') w;
              w = print (''Removed: '' @ str_nat (length dropped_items) @ '' (details: '' @
                         rejects a @ '')'') w;
              w = print (''Wrote curated list to: '' @ output_path) w
          in (Inr (), w)))"

subsection \<open>A test double for the oracle, and Scenario A of the specification\<close>

text \<open>
  The oracle of Scenario A: APPLE scores 5.32, BERRY 4.10 and every other word 0.00 (the
  script asks for the lower-cased word).
\<close>

definition scenario_zipf :: "string \<Rightarrow> pyfloat" where
  "scenario_zipf s =
     (if s = ''apple'' then Finite 5.32 else if s = ''berry'' then Finite 4.10 else Finite 0.00)"

definition scenario_scored :: "WordScore list" where
  "scenario_scored =
     [\<lparr>word = ''APPLE'', freq = Finite 5.32\<rparr>,
      \<lparr>word = ''BERRY'', freq = Finite 4.10\<rparr>,
      \<lparr>word = ''ZYZZX'', freq = Finite 0.00\<rparr>]"

text \<open>
  A run with \<^verbatim>\<open>--output server/words.txt\<close> and every other option at its default:
  answer threshold 3.4, no guesses threshold.
\<close>

definition scenario_args :: args where
  "scenario_args =
     \<lparr>source = ''server/allowed_guesses.txt'',
      output_arg = Some ''server/words.txt'',
      rejects = ''server/rejected_words.csv'',
      guesses_output = ''server/allowed_guesses.txt'',
      threshold = Finite 3.4,
      guesses_threshold = None\<rparr>"

definition scenario_world :: world where
  "scenario_world =
     \<lparr>files = [''server/allowed_guesses.txt'' \<mapsto> ''APPLE'' @ [LF] @ ''BERRY'' @ [LF] @ ''ZYZZX'' @ [LF]],
      writes = [], oracle_calls = [], stdout = []\<rparr>"

text \<open>A world in which no file exists.\<close>

definition empty_world :: world where
  "empty_world = \<lparr>files = Map.empty, writes = [], oracle_calls = [], stdout = []\<rparr>"


text \<open>
  Two variations of the run: thresholds of 9 for answers and guesses, which no word
  reaches, and an answer threshold of 0, which every word reaches.
\<close>

definition strict_args :: args where
  "strict_args = scenario_args\<lparr>threshold := Finite 9, guesses_threshold := Some (Finite 9)\<rparr>"

definition lenient_args :: args where
  "lenient_args = scenario_args\<lparr>threshold := Finite 0\<rparr>"

subsection \<open>Predicates on the printed numbers\<close>

text \<open>
  \<open>three_decimals s\<close>: \<open>s\<close> is an optional minus sign, at least one digit, a point and
  exactly three digits.
\<close>

definition is_digit :: "char \<Rightarrow> bool" where
  "is_digit c = (48 \<le> (of_char c :: nat) \<and> (of_char c :: nat) \<le> 57)"

definition three_decimals :: "string \<Rightarrow> bool" where
  "three_decimals s =
     (case rev s of
        d3 # d2 # d1 # pt # ip \<Rightarrow>
          is_digit d3 \<and> is_digit d2 \<and> is_digit d1 \<and> pt = CHR ''.'' \<and>
          (let i = rev ip; n = (if i \<noteq> [] \<and> hd i = CHR ''-'' then tl i else i)
           in n \<noteq> [] \<and> list_all is_digit n)
      | _ \<Rightarrow> False)"

section \<open>Properties\<close>

subsection \<open>Comparison of floats\<close>

lemma ge_f_iff_not_lt: "a \<noteq> NaN \<Longrightarrow> b \<noteq> NaN \<Longrightarrow> ge_f a b = (\<not> lt_f a b)"
  by (cases a; cases b) auto

lemma ge_f_refl: "a \<noteq> NaN \<Longrightarrow> ge_f a a"
  by (cases a) auto

lemma ge_f_NegInf: "a \<noteq> NaN \<Longrightarrow> ge_f a NegInf"
  by (cases a) auto

lemma ge_f_not_NaN: "ge_f a b \<Longrightarrow> a \<noteq> NaN \<and> b \<noteq> NaN"
  by (cases a; cases b) auto

lemma lt_f_not_NaN: "lt_f a b \<Longrightarrow> a \<noteq> NaN \<and> b \<noteq> NaN"
  by (cases a; cases b) auto

lemma lt_f_not_ge_f: "lt_f a b \<Longrightarrow> \<not> ge_f a b"
  by (cases a; cases b) auto

lemma ge_f_trans: "ge_f a b \<Longrightarrow> ge_f b c \<Longrightarrow> ge_f a c"
  by (cases a; cases b; cases c) auto

lemma lt_f_asym: "lt_f a b \<Longrightarrow> \<not> lt_f b a"
  by (cases a; cases b) auto

lemma lt_f_negtrans:
  "a \<noteq> NaN \<Longrightarrow> b \<noteq> NaN \<Longrightarrow> c \<noteq> NaN \<Longrightarrow> \<not> lt_f b a \<Longrightarrow> \<not> lt_f c b \<Longrightarrow> \<not> lt_f c a"
  by (cases a; cases b; cases c) auto

lemma ge_f_antitone: "le_f t1 t2 \<Longrightarrow> ge_f x t2 \<Longrightarrow> ge_f x t1"
  unfolding le_f_def by (rule ge_f_trans)

subsection \<open>The stable sort\<close>

lemma mset_insort_lt: "mset (insort_lt lt x xs) = add_mset x (mset xs)"
  by (induction xs) auto

lemma mset_sorted_py: "mset (sorted_py lt xs) = mset xs"
  by (induction xs) (auto simp: sorted_py_def mset_insort_lt)

lemma set_sorted_py: "set (sorted_py lt xs) = set xs"
  by (metis mset_sorted_py set_mset_mset)

lemma length_sorted_py: "length (sorted_py lt xs) = length xs"
  by (metis mset_sorted_py size_mset)

lemma sorted_py_Nil_iff: "sorted_py lt xs = [] \<longleftrightarrow> xs = []"
  by (metis length_sorted_py length_0_conv)

lemma sorted_py_Cons: "sorted_py lt (x # xs) = insort_lt lt x (sorted_py lt xs)"
  by (simp add: sorted_py_def)

lemma set_insort_lt: "set (insort_lt lt x xs) = insert x (set xs)"
  by (metis mset_insort_lt set_mset_add_mset_insert set_mset_mset)

lemma sorted_wrt_insort_lt:
  assumes asym: "\<And>a b. a \<in> A \<Longrightarrow> b \<in> A \<Longrightarrow> lt a b \<Longrightarrow> \<not> lt b a"
    and ntr: "\<And>a b c. a \<in> A \<Longrightarrow> b \<in> A \<Longrightarrow> c \<in> A \<Longrightarrow> \<not> lt b a \<Longrightarrow> \<not> lt c b \<Longrightarrow> \<not> lt c a"
    and "x \<in> A" and "set xs \<subseteq> A"
    and "sorted_wrt (\<lambda>a b. \<not> lt b a) xs"
  shows "sorted_wrt (\<lambda>a b. \<not> lt b a) (insort_lt lt x xs)"
  using assms(3-)
proof (induction xs)
  case Nil
  then show ?case by simp
next
  case (Cons y ys)
  show ?case
  proof (cases "lt y x")
    case True
    have "sorted_wrt (\<lambda>a b. \<not> lt b a) (insort_lt lt x ys)"
      using Cons by simp
    moreover have "\<forall>z\<in>set (insort_lt lt x ys). \<not> lt z y"
      using Cons.prems True asym by (auto simp: set_insort_lt)
    ultimately show ?thesis using True by simp
  next
    case False
    have "\<forall>z\<in>set ys. \<not> lt z x"
    proof
      fix z assume z: "z \<in> set ys"
      then have "\<not> lt z y" using Cons.prems by simp
      then show "\<not> lt z x"
        using ntr[of x y z] False Cons.prems z by auto
    qed
    then show ?thesis using False Cons.prems by simp
  qed
qed

lemma sorted_wrt_sorted_py:
  assumes asym: "\<And>a b. a \<in> A \<Longrightarrow> b \<in> A \<Longrightarrow> lt a b \<Longrightarrow> \<not> lt b a"
    and ntr: "\<And>a b c. a \<in> A \<Longrightarrow> b \<in> A \<Longrightarrow> c \<in> A \<Longrightarrow> \<not> lt b a \<Longrightarrow> \<not> lt c b \<Longrightarrow> \<not> lt c a"
    and "set xs \<subseteq> A"
  shows "sorted_wrt (\<lambda>a b. \<not> lt b a) (sorted_py lt xs)"
  using assms(3)
proof (induction xs)
  case Nil
  then show ?case by (simp add: sorted_py_def)
next
  case (Cons x xs)
  have x: "x \<in> A" and xs: "set (sorted_py lt xs) \<subseteq> A"
    using Cons.prems by (simp_all add: set_sorted_py)
  have ih: "sorted_wrt (\<lambda>a b. \<not> lt b a) (sorted_py lt xs)"
    using Cons by simp
  have "sorted_wrt (\<lambda>a b. \<not> lt b a) (insort_lt lt x (sorted_py lt xs))"
    using asym ntr x xs ih by (rule sorted_wrt_insort_lt[where A = A])
  then show ?case by (simp add: sorted_py_Cons)
qed

subsection \<open>The scorer\<close>

lemma score_words_loop_eq:
  "score_words_loop zipf wds scored w =
     (scored @ map (\<lambda>wd. \<lparr>word = wd, freq = zipf (lower wd)\<rparr>) wds,
      w\<lparr>oracle_calls := oracle_calls w @ map lower wds\<rparr>)"
  by (induction wds arbitrary: scored w) (auto simp: Let_def)

lemma score_words_eq:
  "score_words zipf wds w =
     (map (\<lambda>wd. \<lparr>word = wd, freq = zipf (lower wd)\<rparr>) wds,
      w\<lparr>oracle_calls := oracle_calls w @ map lower wds\<rparr>)"
  by (simp add: score_words_def score_words_loop_eq)

subsection \<open>The three lists of \<^verbatim>\<open>main\<close>\<close>

lemma concat_map_if:
  "concat (map (\<lambda>x. if P x then [f x] else []) xs) = map f (filter P xs)"
  by (induction xs) auto

lemma kept_filter: "kept scored t = filter (\<lambda>x. ge_f (freq x) t) scored"
  using concat_map_if[of "\<lambda>x. ge_f (freq x) t" "\<lambda>x. x" scored] by (simp add: kept_def)

lemma dropped_filter: "dropped scored t = filter (\<lambda>x. lt_f (freq x) t) scored"
  using concat_map_if[of "\<lambda>x. lt_f (freq x) t" "\<lambda>x. x" scored] by (simp add: dropped_def)

lemma allowed_filter:
  "allowed scored g = sorted_py str_lt (map word
     (filter (\<lambda>x. ge_f (freq x) (case g of None \<Rightarrow> NegInf | Some t \<Rightarrow> t)) scored))"
  by (simp add: allowed_def concat_map_if)

text \<open>
  NaN is where the three filters stop being complementary, since every comparison with
  NaN is false: an entry whose score is NaN is neither kept nor dropped nor allowed, and
  with a NaN threshold nothing is kept and nothing is dropped.
\<close>

lemma nan_score_in_no_list:
  assumes "freq x = NaN"
  shows "x \<notin> set (kept scored t) \<and> x \<notin> set (dropped scored t) \<and>
         x \<notin> set (filter (\<lambda>x. ge_f (freq x) NegInf) scored)"
  using assms by (simp add: kept_filter dropped_filter)

lemma nan_threshold_empties_both: "kept scored NaN = [] \<and> dropped scored NaN = []"
proof -
  have "\<And>b. \<not> ge_f b NaN" "\<And>b. \<not> lt_f b NaN"
    using ge_f_not_NaN lt_f_not_NaN by blast+
  then show ?thesis by (simp add: kept_filter dropped_filter)
qed

subsection \<open>What \<^verbatim>\<open>main\<close> writes\<close>

lemma fold_append_rows: "fold (\<lambda>x fh. fh @ g x) xs h = h @ concat (map g xs)"
  by (induction xs arbitrary: h) auto

lemma export_rejects_eq:
  "export_rejects p rs w =
     write_file p (csv_writerow [''word'', ''zipf_frequency''] @
       concat (map (\<lambda>item. csv_writerow [word item, format_f 3 (freq item)]) rs)) w"
  by (simp add: export_rejects_def fold_append_rows)

lemma load_words_Inr_exists: "load_words p w = Inr wds \<Longrightarrow> exists_path p w"
  by (auto simp: load_words_def read_text_def exists_path_def split: option.splits)

lemma main_missing_source:
  "\<not> exists_path (source a) w \<Longrightarrow>
     main zipf a w = (Inl (SystemExit (''Source file not found: '' @ source a)), w)"
  by (simp add: main_def)

lemma main_writes:
  assumes "load_words (source a) w = Inr wds"
  shows "writes (snd (main zipf a w)) = writes w @
     [(case output_arg a of None \<Rightarrow> source a | Some p \<Rightarrow> p,
       join [LF] (sorted_py str_lt (map word (kept (fst (score_words zipf wds w)) (threshold a)))) @ [LF]),
      (guesses_output a,
       join [LF] (allowed (fst (score_words zipf wds w)) (guesses_threshold a)) @ [LF])] @
     (if dropped (fst (score_words zipf wds w)) (threshold a) = [] then []
      else [(rejects a,
        csv_writerow [''word'', ''zipf_frequency''] @
        concat (map (\<lambda>item. csv_writerow [word item, format_f 3 (freq item)])
          (sorted_py (\<lambda>x y. lt_f (freq x) (freq y))
             (dropped (fst (score_words zipf wds w)) (threshold a)))))])"
  using assms load_words_Inr_exists[OF assms]
  by (simp add: main_def Let_def score_words_eq truthy_path_def save_words_def
      export_rejects_eq write_file_def print_def)

lemma main_returns:
  assumes "load_words (source a) w = Inr wds"
  shows "fst (main zipf a w) = Inr ()"
    and "oracle_calls (snd (main zipf a w)) = oracle_calls w @ map lower wds"
  using assms load_words_Inr_exists[OF assms]
  by (simp_all add: main_def Let_def score_words_eq truthy_path_def save_words_def
      export_rejects_eq write_file_def print_def)

subsection \<open>The order of strings, and the text of a word list\<close>

lemma str_lt_irrefl: "\<not> str_lt a a"
  by (induction a) auto

lemma str_lt_asym: "str_lt a b \<Longrightarrow> \<not> str_lt b a"
  by (induction a b rule: str_lt.induct) auto

lemma str_lt_total: "\<not> str_lt a b \<Longrightarrow> \<not> str_lt b a \<Longrightarrow> a = b"
proof (induction a b rule: str_lt.induct)
  case (1 a)
  then show ?case by (cases a) auto
next
  case (2 y ys)
  then show ?case by simp
next
  case (3 x xs y ys)
  then have "\<not> (of_char x :: nat) < of_char y" "\<not> (of_char y :: nat) < of_char x"
    by auto
  then have xy: "x = y" by (simp add: of_char_eqI)
  with 3 show ?case by auto
qed

lemma str_lt_trans: "str_lt a b \<Longrightarrow> str_lt b c \<Longrightarrow> str_lt a c"
proof (induction a b arbitrary: c rule: str_lt.induct)
  case (1 a)
  then show ?case by simp
next
  case (2 y ys)
  then show ?case by (cases c) auto
next
  case (3 x xs y ys)
  then show ?case by (cases c) auto
qed

lemma str_lt_negtrans: "\<not> str_lt b a \<Longrightarrow> \<not> str_lt c b \<Longrightarrow> \<not> str_lt c a"
  by (metis str_lt_total str_lt_trans)

lemma sorted_words_ascending: "sorted_wrt str_le (sorted_py str_lt ws)"
  unfolding str_le_def
proof (rule sorted_wrt_sorted_py[where A = UNIV])
  show "\<And>a b. str_lt a b \<Longrightarrow> \<not> str_lt b a"
    by (rule str_lt_asym)
  show "\<And>a b c. \<not> str_lt b a \<Longrightarrow> \<not> str_lt c b \<Longrightarrow> \<not> str_lt c a"
    by (rule str_lt_negtrans)
  show "set ws \<subseteq> UNIV" by simp
qed

lemma sorted_distinct_strict:
  "sorted_wrt str_le xs \<Longrightarrow> distinct xs \<Longrightarrow> sorted_wrt str_lt xs"
proof (induction xs)
  case Nil
  then show ?case by simp
next
  case (Cons x xs)
  have "\<forall>y\<in>set xs. str_lt x y"
  proof
    fix y assume y: "y \<in> set xs"
    with Cons.prems have "\<not> str_lt y x" "x \<noteq> y" by (auto simp: str_le_def)
    then show "str_lt x y" using str_lt_total by blast
  qed
  with Cons show ?case by simp
qed

lemma distinct_sorted_py: "distinct (sorted_py lt xs) = distinct xs"
  by (metis mset_sorted_py mset_eq_imp_distinct_iff)

lemma join_lines: "ws \<noteq> [] \<Longrightarrow> join [LF] ws @ [LF] = concat (map (\<lambda>x. x @ [LF]) ws)"
  by (induction ws rule: join.induct[where ?a0.0 = "[LF]"]) auto

lemma word_list_text_nonempty: "join [LF] ws @ [LF] \<noteq> []"
  by simp

subsection \<open>Lines, whitespace and case\<close>

lemma CR_neq_LF [simp]: "CR \<noteq> LF" "LF \<noteq> CR"
  by (simp_all add: CR_def LF_def)

lemma is_linebreak_CR_LF [simp]: "is_linebreak CR" "is_linebreak LF"
  by (simp_all add: is_linebreak_def CR_def LF_def)

lemma is_linebreak_is_space: "is_linebreak c \<Longrightarrow> is_space c"
  by (auto simp: is_linebreak_def is_space_def)

lemma splitlines_from_Cons:
  "splitlines_from cur (c # cs) =
     (if c = CR \<and> cs \<noteq> [] \<and> hd cs = LF then cur # splitlines_from [] (tl cs)
      else if is_linebreak c then cur # splitlines_from [] cs
      else splitlines_from (cur @ [c]) cs)"
  by (cases cs) auto

lemma universal_newlines_Nil_iff [simp]: "universal_newlines s = [] \<longleftrightarrow> s = []"
  by (induction s rule: universal_newlines.induct) auto

lemma hd_universal_newlines:
  "s \<noteq> [] \<Longrightarrow> hd (universal_newlines s) = (if hd s = CR then LF else hd s)"
  by (induction s rule: universal_newlines.induct) auto

lemma splitlines_from_universal_newlines:
  "splitlines_from cur (universal_newlines s) = splitlines_from cur s"
proof (induction s arbitrary: cur rule: universal_newlines.induct)
  case 1
  then show ?case by simp
next
  case (2 c)
  then show ?case by simp
next
  case (3 c d cs)
  show ?case
  proof (cases "c = CR \<and> d = LF")
    case True
    then show ?thesis
      using 3 by (cases "universal_newlines cs") (auto simp: splitlines_from_Cons)
  next
    case False
    then show ?thesis
      using 3 by (auto simp: splitlines_from_Cons hd_universal_newlines)
  qed
qed

lemma splitlines_universal_newlines: "splitlines (universal_newlines s) = splitlines s"
  by (simp add: splitlines_def splitlines_from_universal_newlines)

lemma splitlines_from_no_linebreak:
  "list_all (\<lambda>c. \<not> is_linebreak c) cur \<Longrightarrow>
   list_all (list_all (\<lambda>c. \<not> is_linebreak c)) (splitlines_from cur s)"
  by (induction cur s rule: splitlines_from.induct) simp_all

lemma splitlines_no_linebreak:
  "l \<in> set (splitlines s) \<Longrightarrow> c \<in> set l \<Longrightarrow> \<not> is_linebreak c"
  using splitlines_from_no_linebreak[of "[]" s]
  by (simp add: splitlines_def list_all_iff)

lemma dropWhile_all: "(\<forall>x\<in>set (dropWhile P l). P x) \<longleftrightarrow> (\<forall>x\<in>set l. P x)"
  by (induction l) auto

lemma strip_Nil_iff: "strip l = [] \<longleftrightarrow> list_all is_space l"
  by (simp add: strip_def dropWhile_eq_Nil_conv list_all_iff dropWhile_all)

lemma strip_tail:
  "dropWhile is_space l = strip l @ rev (takeWhile is_space (rev (dropWhile is_space l)))"
proof -
  let ?d = "dropWhile is_space l"
  have "rev (rev ?d) = rev (takeWhile is_space (rev ?d) @ dropWhile is_space (rev ?d))"
    by (simp only: takeWhile_dropWhile_id)
  then have "?d = rev (dropWhile is_space (rev ?d)) @ rev (takeWhile is_space (rev ?d))"
    by (simp only: rev_rev_ident rev_append)
  then show ?thesis by (simp only: strip_def)
qed


lemma set_strip: "set (strip l) \<subseteq> set l"
proof
  fix x assume "x \<in> set (strip l)"
  then have "x \<in> set (dropWhile is_space (rev (dropWhile is_space l)))"
    by (simp add: strip_def)
  then have "x \<in> set (rev (dropWhile is_space l))"
    by (rule set_dropWhileD)
  then have "x \<in> set (dropWhile is_space l)" by simp
  then show "x \<in> set l" by (rule set_dropWhileD)
qed

lemma strip_ends:
  assumes "strip l \<noteq> []"
  shows "\<not> is_space (hd (strip l)) \<and> \<not> is_space (last (strip l))"
proof -
  let ?d = "dropWhile is_space l"
  let ?r = "dropWhile is_space (rev ?d)"
  have r: "?r \<noteq> []" using assms by (simp add: strip_def)
  then have "\<not> is_space (hd ?r)" by (rule hd_dropWhile)
  then have l: "\<not> is_space (last (strip l))"
    using r by (simp add: strip_def last_rev)
  have d: "?d \<noteq> []"
  proof
    assume "?d = []"
    then have "?r = []" by (simp add: dropWhile_all)
    with r show False by simp
  qed
  then have hdd: "\<not> is_space (hd ?d)" by (rule hd_dropWhile)
  have "hd ?d = hd (strip l @ rev (takeWhile is_space (rev ?d)))"
    using strip_tail[of l] by simp
  then have "hd ?d = hd (strip l)" using assms by simp
  then show ?thesis using hdd l by simp
qed

lemma is_space_code:
  "is_space c \<longleftrightarrow> (of_char c :: nat) \<in> {9, 10, 11, 12, 13, 28, 29, 30, 31, 32}"
proof -
  have "\<And>d. (c = d) = ((of_char c :: nat) = of_char d)" by simp
  then show ?thesis unfolding is_space_def by (simp del: of_char_eq_iff)
qed

lemma is_linebreak_code:
  "is_linebreak c \<longleftrightarrow> (of_char c :: nat) \<in> {10, 11, 12, 13, 28, 29, 30}"
proof -
  have "\<And>d. (c = d) = ((of_char c :: nat) = of_char d)" by simp
  then show ?thesis unfolding is_linebreak_def by (simp del: of_char_eq_iff)
qed

lemma of_char_upper_char:
  "(of_char (upper_char c) :: nat) =
     (if 97 \<le> (of_char c :: nat) \<and> (of_char c :: nat) \<le> 122 then of_char c - 32 else of_char c)"
proof -
  define n :: nat where "n = of_char c"
  have "97 \<le> n \<and> n \<le> 122 \<Longrightarrow> (n - 32) mod 256 = n - 32"
    by (rule mod_less) arith
  then show ?thesis
    unfolding upper_char_def Let_def n_def by simp
qed

lemma upper_char_not_lower:
  "\<not> (97 \<le> (of_char (upper_char c) :: nat) \<and> (of_char (upper_char c) :: nat) \<le> 122)"
  unfolding of_char_upper_char by (simp split: if_splits) arith

lemma is_space_upper_char [simp]: "is_space (upper_char c) = is_space c"
  by (auto simp: is_space_code of_char_upper_char)

lemma is_linebreak_upper_char [simp]: "is_linebreak (upper_char c) = is_linebreak c"
  by (auto simp: is_linebreak_code of_char_upper_char)

lemma upper_char_idem [simp]: "upper_char (upper_char c) = upper_char c"
proof (rule of_char_eqI[where 'a = nat])
  have "(of_char (upper_char (upper_char c)) :: nat) = of_char (upper_char c)"
    using upper_char_not_lower[of c] by (subst of_char_upper_char) auto
  then show "(of_char (upper_char (upper_char c)) :: nat) = of_char (upper_char c)" .
qed

lemma upper_Nil_iff [simp]: "upper s = [] \<longleftrightarrow> s = []"
  by (simp add: upper_def)





subsection \<open>The loader\<close>

lemma load_words_eq:
  assumes "files w p = Some raw"
  shows "load_words p w =
     Inr (map (\<lambda>l. upper (strip l)) (filter (\<lambda>l. \<not> list_all is_space l) (splitlines raw)))"
  using assms
  by (simp add: load_words_def read_text_def splitlines_universal_newlines concat_map_if
      strip_Nil_iff)

lemma loaded_word_shape:
  assumes "l \<in> set (splitlines raw)" and "\<not> list_all is_space l"
  shows "upper (strip l) \<noteq> [] \<and> \<not> is_space (hd (upper (strip l))) \<and>
         \<not> is_space (last (upper (strip l))) \<and>
         list_all (\<lambda>c. \<not> is_linebreak c \<and> upper_char c = c) (upper (strip l))"
proof -
  have ne: "strip l \<noteq> []" using assms(2) by (simp add: strip_Nil_iff)
  have e: "\<not> is_space (hd (strip l)) \<and> \<not> is_space (last (strip l))"
    using ne by (rule strip_ends)
  have nl: "\<forall>c\<in>set (strip l). \<not> is_linebreak c"
    using assms(1) set_strip[of l] splitlines_no_linebreak by blast
  show ?thesis
    using ne e nl by (simp add: upper_def hd_map last_map list_all_iff)
qed


subsection \<open>The files after \<^verbatim>\<open>main\<close>\<close>

lemma main_files:
  assumes "load_words (source a) w = Inr wds"
  shows "files (snd (main zipf a w)) =
     (let f = (files w)
          (case output_arg a of None \<Rightarrow> source a | Some p \<Rightarrow> p \<mapsto>
             join [LF] (sorted_py str_lt (map word (kept (fst (score_words zipf wds w)) (threshold a)))) @ [LF],
           guesses_output a \<mapsto>
             join [LF] (allowed (fst (score_words zipf wds w)) (guesses_threshold a)) @ [LF])
      in if dropped (fst (score_words zipf wds w)) (threshold a) = [] then f
         else f(rejects a \<mapsto>
           csv_writerow [''word'', ''zipf_frequency''] @
           concat (map (\<lambda>item. csv_writerow [word item, format_f 3 (freq item)])
             (sorted_py (\<lambda>x y. lt_f (freq x) (freq y))
                (dropped (fst (score_words zipf wds w)) (threshold a))))))"
  using assms load_words_Inr_exists[OF assms]
  by (simp add: main_def Let_def score_words_eq truthy_path_def save_words_def
      export_rejects_eq write_file_def print_def)

lemma csv_writerow_nonempty [simp]: "csv_writerow row \<noteq> []"
  by (simp add: csv_writerow_def)

lemma loaded_words_no_LF:
  assumes "load_words p w = Inr wds" and "x \<in> set wds"
  shows "LF \<notin> set x"
proof -
  obtain raw where raw: "files w p = Some raw"
    using assms(1) by (auto simp: load_words_def read_text_def split: option.splits)
  have "wds = map (\<lambda>l. upper (strip l)) (filter (\<lambda>l. \<not> list_all is_space l) (splitlines raw))"
    using load_words_eq[OF raw] assms(1) by simp
  then obtain l where l: "l \<in> set (splitlines raw)" "\<not> list_all is_space l" "x = upper (strip l)"
    using assms(2) by auto
  have "list_all (\<lambda>c. \<not> is_linebreak c \<and> upper_char c = c) x"
    using loaded_word_shape[OF l(1,2)] l(3) by simp
  then show ?thesis
    using is_linebreak_CR_LF(2) by (auto simp: list_all_iff)
qed

lemma save_words_eq:
  "writes (save_words p ws w) = writes w @ [(p, join [LF] ws @ [LF])] \<and>
   files (save_words p ws w) p = Some (join [LF] ws @ [LF])"
  by (simp add: save_words_def write_file_def)

subsection \<open>The runs of the scenario, evaluated\<close>

lemma scenario_load:
  "load_words ''server/allowed_guesses.txt'' scenario_world = Inr [''APPLE'', ''BERRY'', ''ZYZZX'']"
  by (simp add: load_words_def read_text_def scenario_world_def splitlines_def CR_def LF_def
      is_linebreak_def is_space_def strip_def upper_def upper_char_def char_of_eq_iff)

lemma scenario_score:
  "fst (score_words scenario_zipf [''APPLE'', ''BERRY'', ''ZYZZX''] w) = scenario_scored"
  by (simp add: score_words_eq scenario_zipf_def scenario_scored_def lower_def lower_char_def
      char_of_eq_iff)

lemma scenario_sorted_words:
  "sorted_py str_lt [''APPLE'', ''BERRY'', ''ZYZZX''] = [''APPLE'', ''BERRY'', ''ZYZZX'']"
  "sorted_py str_lt [''APPLE'', ''BERRY''] = [''APPLE'', ''BERRY'']"
  "sorted_py str_lt [''ZYZZX'', ''BERRY'', ''APPLE'', ''BERRY''] = [''APPLE'', ''BERRY'', ''BERRY'', ''ZYZZX'']"
  by (simp_all add: sorted_py_def)

lemma scenario_args_fields:
  "source scenario_args = ''server/allowed_guesses.txt''"
  "output_arg scenario_args = Some ''server/words.txt''"
  "rejects scenario_args = ''server/rejected_words.csv''"
  "guesses_output scenario_args = ''server/allowed_guesses.txt''"
  "guesses_threshold scenario_args = None"
  by (simp_all add: scenario_args_def)

lemma strict_args_fields:
  "source strict_args = ''server/allowed_guesses.txt''"
  "output_arg strict_args = Some ''server/words.txt''"
  "rejects strict_args = ''server/rejected_words.csv''"
  "guesses_output strict_args = ''server/allowed_guesses.txt''"
  by (simp_all add: strict_args_def scenario_args_def)

lemma lenient_args_fields:
  "source lenient_args = ''server/allowed_guesses.txt''"
  "output_arg lenient_args = Some ''server/words.txt''"
  "rejects lenient_args = ''server/rejected_words.csv''"
  "guesses_output lenient_args = ''server/allowed_guesses.txt''"
  "guesses_threshold lenient_args = None"
  by (simp_all add: lenient_args_def scenario_args_def)

lemma scenario_lists:
  "kept scenario_scored (threshold scenario_args) =
     [\<lparr>word = ''APPLE'', freq = Finite 5.32\<rparr>, \<lparr>word = ''BERRY'', freq = Finite 4.10\<rparr>]"
  "dropped scenario_scored (threshold scenario_args) = [\<lparr>word = ''ZYZZX'', freq = Finite 0.00\<rparr>]"
  "allowed scenario_scored None = [''APPLE'', ''BERRY'', ''ZYZZX'']"
  by (simp_all add: kept_filter dropped_filter allowed_filter scenario_scored_def
      scenario_args_def scenario_sorted_words)

lemma strict_lists:
  "kept scenario_scored (threshold strict_args) = []"
  "dropped scenario_scored (threshold strict_args) = scenario_scored"
  "allowed scenario_scored (guesses_threshold strict_args) = []"
  by (simp_all add: kept_filter dropped_filter allowed_filter scenario_scored_def
      strict_args_def sorted_py_def)

lemma lenient_lists:
  "kept scenario_scored (threshold lenient_args) = scenario_scored"
  "dropped scenario_scored (threshold lenient_args) = []"
  by (simp_all add: kept_filter dropped_filter scenario_scored_def lenient_args_def)

subsection \<open>Printed numbers\<close>

lemma is_digit_digit_char: "d < 10 \<Longrightarrow> is_digit (digit_char d)"
  by (simp add: is_digit_def digit_char_def)

lemma str_nat_digits: "str_nat n \<noteq> [] \<and> list_all is_digit (str_nat n)"
proof (induction n rule: str_nat.induct)
  case (1 n)
  show ?case
  proof (cases "n < 10")
    case True
    then show ?thesis by (subst (1 2) str_nat.simps) (simp add: is_digit_digit_char)
  next
    case False
    then show ?thesis
      using 1 by (subst (1 2) str_nat.simps) (simp add: is_digit_digit_char)
  qed
qed

lemma length_str_nat: "n < 10 ^ Suc k \<Longrightarrow> length (str_nat n) \<le> Suc k"
proof (induction k arbitrary: n)
  case 0
  then show ?case by (subst str_nat.simps) simp
next
  case (Suc k)
  show ?case
  proof (cases "n < 10")
    case True
    then show ?thesis by (subst str_nat.simps) simp
  next
    case False
    have "n div 10 < 10 ^ Suc k"
      using Suc.prems by (simp add: less_mult_imp_div_less mult.commute)
    then have "length (str_nat (n div 10)) \<le> Suc k" by (rule Suc.IH)
    then show ?thesis using False by (subst str_nat.simps) simp
  qed
qed

lemma frac_digits_shape:
  "length (frac_digits (Suc k) m) = Suc k \<and> list_all is_digit (frac_digits (Suc k) m)"
proof -
  have "m mod 10 ^ Suc k < 10 ^ Suc k" by simp
  then have "length (str_nat (m mod 10 ^ Suc k)) \<le> Suc k" by (rule length_str_nat)
  moreover have "is_digit (CHR ''0'')" by (simp add: is_digit_def)
  ultimately show ?thesis
    using str_nat_digits[of "m mod 10 ^ Suc k"]
    by (auto simp: frac_digits_def Let_def list_all_iff is_digit_def)
qed

lemma three_decimals_format_f: "three_decimals (format_f 3 (Finite v))"
proof -
  define m where "m = nat (round_half_even (\<bar>v\<bar> * 1000))"
  have "length (frac_digits 3 m) = 3 \<and> list_all is_digit (frac_digits 3 m)"
    using frac_digits_shape[of 2 m] by (simp add: eval_nat_numeral)
  then obtain d1 d2 d3 where fd: "frac_digits 3 m = [d1, d2, d3]"
    and dg: "is_digit d1" "is_digit d2" "is_digit d3"
    by (auto simp: length_Suc_conv eval_nat_numeral)
  have ip: "str_nat (m div 10 ^ 3) \<noteq> [] \<and> list_all is_digit (str_nat (m div 10 ^ 3))"
    by (rule str_nat_digits)
  have nd: "hd (str_nat (m div 10 ^ 3)) \<noteq> CHR ''-''"
  proof -
    have "is_digit (hd (str_nat (m div 10 ^ 3)))"
      using ip by (cases "str_nat (m div 10 ^ 3)") simp_all
    then show ?thesis by (auto simp: is_digit_def)
  qed
  have f: "format_f 3 (Finite v) =
      (if v < 0 then ''-'' else '''') @ str_nat (m div 10 ^ 3) @ ''.'' @ [d1, d2, d3]"
    by (simp add: m_def Let_def fd[unfolded m_def])
  show ?thesis
    unfolding f three_decimals_def using dg ip nd by (simp add: Let_def)
qed

subsection \<open>Printed numbers, evaluated\<close>

lemma replicate_small:
  "replicate 1 x = [x]" "replicate 2 x = [x, x]" "replicate 3 x = [x, x, x]"
  by (simp_all add: eval_nat_numeral)

lemma format_f_scenario:
  "format_f 3 (Finite 0.00) = ''0.000''"
  "format_f 3 (Finite 4.10) = ''4.100''"
  "format_f 3 (Finite 5.32) = ''5.320''"
  by (simp_all add: round_half_even_def frac_digits_def Let_def str_nat.simps digit_char_def
      char_of_eq_iff replicate_small)

lemma format_f_ties:
  "format_f 3 (Finite 0.0625) = ''0.062''"
  "format_f 3 (Finite 0.1875) = ''0.188''"
  "format_f 3 (Finite (- 0.0001)) = ''-0.000''"
  "format_f 2 (Finite 3.4) = ''3.40''"
  by (simp_all add: round_half_even_def frac_digits_def Let_def str_nat.simps digit_char_def
      char_of_eq_iff replicate_small)

lemma digit_char_eval:
  "digit_char 0 = CHR ''0''" "digit_char 1 = CHR ''1''" "digit_char 2 = CHR ''2''"
  "digit_char 3 = CHR ''3''" "digit_char 4 = CHR ''4''" "digit_char 5 = CHR ''5''"
  "digit_char 6 = CHR ''6''" "digit_char 7 = CHR ''7''" "digit_char 8 = CHR ''8''"
  "digit_char 9 = CHR ''9''" "digit_char (Suc 0) = CHR ''1''"
  by (simp_all add: digit_char_def char_of_eq_iff)

lemmas format_eval = round_half_even_def frac_digits_def Let_def str_nat.simps digit_char_eval
  replicate_small

subsection \<open>The rows of the reject report\<close>

lemma csv_header: "csv_writerow [''word'', ''zipf_frequency''] = ''word,zipf_frequency'' @ [CR, LF]"
  by (simp add: csv_writerow_def csv_field_def csv_needs_quotes_def CR_def LF_def)

lemma csv_field_plain: "\<not> csv_needs_quotes s \<Longrightarrow> csv_field s = s"
  by (simp add: csv_field_def)

lemma is_digit_plain: "is_digit c \<Longrightarrow> c \<noteq> CHR '','' \<and> c \<noteq> CHR 0x22 \<and> c \<noteq> CR \<and> c \<noteq> LF"
  by (auto simp: is_digit_def CR_def LF_def)

lemma csv_plain_digits: "list_all is_digit s \<Longrightarrow> \<not> csv_needs_quotes s"
  using is_digit_plain by (auto simp: csv_needs_quotes_def list_all_iff list_ex_iff)

lemma csv_needs_quotes_append [simp]:
  "csv_needs_quotes (s @ t) = (csv_needs_quotes s \<or> csv_needs_quotes t)"
  by (simp add: csv_needs_quotes_def)

lemma csv_needs_quotes_Cons:
  "csv_needs_quotes (c # s) =
     (c = CHR '','' \<or> c = CHR 0x22 \<or> c = CR \<or> c = LF \<or> csv_needs_quotes s)"
  by (simp add: csv_needs_quotes_def)

lemma format_f_plain: "\<not> csv_needs_quotes (format_f p x)"
proof (cases x)
  case (Finite v)
  have a: "\<not> csv_needs_quotes (str_nat n)" for n
    using str_nat_digits[of n] by (simp add: csv_plain_digits)
  have b: "\<not> csv_needs_quotes (frac_digits p m)" for m
  proof (cases p)
    case 0
    then show ?thesis
      using a[of "m mod 10 ^ 0"] by (simp add: frac_digits_def Let_def)
  next
    case (Suc k)
    then show ?thesis using frac_digits_shape[of k m] by (simp add: csv_plain_digits)
  qed
  have c: "\<not> csv_needs_quotes ''-''" "\<not> csv_needs_quotes ''.''" "\<not> csv_needs_quotes ''''"
    by (simp_all add: csv_needs_quotes_def CR_def LF_def)
  show ?thesis
    unfolding Finite format_f.simps Let_def using a b c
    by (simp add: csv_needs_quotes_Cons CR_def LF_def)
next
  case PosInf
  then show ?thesis by (simp add: csv_needs_quotes_def CR_def LF_def)
next
  case NegInf
  then show ?thesis by (simp add: csv_needs_quotes_def CR_def LF_def)
next
  case NaN
  then show ?thesis by (simp add: csv_needs_quotes_def CR_def LF_def)
qed

lemma csv_row: "csv_writerow [wd, format_f p x] = csv_field wd @ '','' @ format_f p x @ [CR, LF]"
  by (simp add: csv_writerow_def csv_field_plain format_f_plain)

lemma dropped_not_NaN: "x \<in> set (dropped scored t) \<Longrightarrow> freq x \<noteq> NaN"
  using lt_f_not_NaN by (auto simp: dropped_filter)

lemma reject_rows_ascending:
  "sorted_wrt (\<lambda>x y. le_f (freq x) (freq y))
     (sorted_py (\<lambda>x y. lt_f (freq x) (freq y)) (dropped scored t))"
proof -
  let ?lt = "\<lambda>x y. lt_f (freq x) (freq y)"
  let ?rows = "sorted_py ?lt (dropped scored t)"
  have s: "sorted_wrt (\<lambda>x y. \<not> ?lt y x) ?rows"
  proof (rule sorted_wrt_sorted_py[where A = "{x. freq x \<noteq> NaN}"])
    show "\<And>x y. ?lt x y \<Longrightarrow> \<not> ?lt y x"
      by (rule lt_f_asym)
    show "\<And>x y z. x \<in> {x. freq x \<noteq> NaN} \<Longrightarrow> y \<in> {x. freq x \<noteq> NaN} \<Longrightarrow>
        z \<in> {x. freq x \<noteq> NaN} \<Longrightarrow> \<not> ?lt y x \<Longrightarrow> \<not> ?lt z y \<Longrightarrow> \<not> ?lt z x"
      using lt_f_negtrans by blast
    show "set (dropped scored t) \<subseteq> {x. freq x \<noteq> NaN}"
      using dropped_not_NaN by blast
  qed
  show ?thesis
  proof (rule sorted_wrt_mono_rel[OF _ s])
    fix x y assume "x \<in> set ?rows" "y \<in> set ?rows" "\<not> ?lt y x"
    then show "le_f (freq x) (freq y)"
      using dropped_not_NaN[of x scored t] dropped_not_NaN[of y scored t]
      by (simp add: set_sorted_py le_f_def ge_f_iff_not_lt)
  qed
qed

lemma scenario_sorted_rows:
  "sorted_py (\<lambda>x y. lt_f (freq x) (freq y)) scenario_scored =
     [\<lparr>word = ''ZYZZX'', freq = Finite 0.00\<rparr>,
      \<lparr>word = ''BERRY'', freq = Finite 4.10\<rparr>,
      \<lparr>word = ''APPLE'', freq = Finite 5.32\<rparr>]"
  "sorted_py (\<lambda>x y. lt_f (freq x) (freq y)) [\<lparr>word = ''ZYZZX'', freq = Finite 0.00\<rparr>] =
     [\<lparr>word = ''ZYZZX'', freq = Finite 0.00\<rparr>]"
  by (simp_all add: sorted_py_def scenario_scored_def)

lemma csv_field_scenario:
  "csv_field ''APPLE'' = ''APPLE''" "csv_field ''BERRY'' = ''BERRY''"
  "csv_field ''ZYZZX'' = ''ZYZZX''"
  by (simp_all add: csv_field_def csv_needs_quotes_def CR_def LF_def)

subsection \<open>Word-list paths that coincide\<close>

text \<open>
  With no \<^verbatim>\<open>--output\<close> the answer list goes to the source path, and the default of
  \<^verbatim>\<open>--guesses-output\<close> is the default source path. When the two paths are the same and
  the report goes elsewhere, the allowed-guesses list replaces the answer list: after the
  run the file holds the allowed guesses.
\<close>

lemma same_path_keeps_allowed_guesses:
  assumes "load_words (source a) w = Inr wds"
    and "output_arg a = None" and "guesses_output a = source a" and "rejects a \<noteq> source a"
  shows "files (snd (main zipf a w)) (source a) =
     Some (join [LF] (allowed (fst (score_words zipf wds w)) (guesses_threshold a)) @ [LF])"
  using assms(2-4) by (simp add: main_files[OF assms(1)] Let_def)

section \<open>The claims\<close>

subsection \<open>C1: kept and dropped\<close>

text \<open>
  C1. For every list of scored words whose scores are numbers and every threshold that
  is a number, \<open>kept\<close> is exactly the entries with \<^verbatim>\<open>freq >= threshold\<close> and \<open>dropped\<close>
  is exactly the entries with \<^verbatim>\<open>freq < threshold\<close>, which are the entries that are not
  kept; an entry whose score equals the threshold is kept and not dropped; the two lists
  partition the scored list (their lengths add up to its length, together they hold
  each entry as often as the scored list does, and no entry is in both); and when the
  scored list comes from the scorer, so that the score is a function of the word, no word
  is both in \<open>kept\<close> and in \<open>dropped\<close>.
\<close>

theorem partition_by_answer_threshold:
  assumes "t \<noteq> NaN" and "\<forall>x\<in>set scored. freq x \<noteq> NaN"
  shows "kept scored t = filter (\<lambda>x. ge_f (freq x) t) scored \<and>
         dropped scored t = filter (\<lambda>x. lt_f (freq x) t) scored \<and>
         dropped scored t = filter (\<lambda>x. \<not> ge_f (freq x) t) scored \<and>
         (\<forall>x\<in>set scored. freq x = t \<longrightarrow> x \<in> set (kept scored t) \<and> x \<notin> set (dropped scored t)) \<and>
         length (kept scored t) + length (dropped scored t) = length scored \<and>
         mset (kept scored t) + mset (dropped scored t) = mset scored \<and>
         set (kept scored t) \<inter> set (dropped scored t) = {} \<and>
         (scored = fst (score_words zipf wds w) \<longrightarrow>
            word ` set (kept scored t) \<inter> word ` set (dropped scored t) = {})"
proof -
  have lt_iff: "\<And>x. x \<in> set scored \<Longrightarrow> lt_f (freq x) t = (\<not> ge_f (freq x) t)"
    using assms by (simp add: ge_f_iff_not_lt)
  have d: "dropped scored t = filter (\<lambda>x. \<not> ge_f (freq x) t) scored"
    unfolding dropped_filter by (rule filter_cong) (simp_all add: lt_iff)
  have boundary: "\<forall>x\<in>set scored. freq x = t \<longrightarrow> x \<in> set (kept scored t) \<and> x \<notin> set (dropped scored t)"
    using assms(1) by (auto simp: kept_filter d ge_f_refl)
  have len: "length (kept scored t) + length (dropped scored t) = length scored"
    unfolding kept_filter d by (rule sum_length_filter_compl)
  have ms: "mset (kept scored t) + mset (dropped scored t) = mset scored"
    unfolding kept_filter d by simp
  have disj: "set (kept scored t) \<inter> set (dropped scored t) = {}"
    unfolding kept_filter d by auto
  have wdisj: "word ` set (kept scored t) \<inter> word ` set (dropped scored t) = {}"
    if s: "scored = fst (score_words zipf wds w)"
  proof -
    have fr: "\<And>x. x \<in> set scored \<Longrightarrow> freq x = zipf (lower (word x))"
      unfolding s by (auto simp: score_words_eq)
    show ?thesis
    proof (rule ccontr)
      assume "word ` set (kept scored t) \<inter> word ` set (dropped scored t) \<noteq> {}"
      then obtain x y where x: "x \<in> set (kept scored t)" and y: "y \<in> set (dropped scored t)"
        and xy: "word x = word y" by auto
      from x have "x \<in> set scored" "ge_f (freq x) t" by (simp_all add: kept_filter)
      moreover from y have "y \<in> set scored" "\<not> ge_f (freq y) t" by (simp_all add: d)
      ultimately show False using fr xy by metis
    qed
  qed
  show ?thesis using kept_filter dropped_filter d boundary len ms disj wdisj by blast
qed

theorem partition_by_answer_threshold_witness:
  "Finite 3.4 \<noteq> NaN \<and> list_all (\<lambda>x. freq x \<noteq> NaN) scenario_scored \<and>
   kept scenario_scored (Finite 3.4) =
     [\<lparr>word = ''APPLE'', freq = Finite 5.32\<rparr>, \<lparr>word = ''BERRY'', freq = Finite 4.10\<rparr>] \<and>
   dropped scenario_scored (Finite 3.4) = [\<lparr>word = ''ZYZZX'', freq = Finite 0.00\<rparr>] \<and>
   kept scenario_scored (Finite 4.10) =
     [\<lparr>word = ''APPLE'', freq = Finite 5.32\<rparr>, \<lparr>word = ''BERRY'', freq = Finite 4.10\<rparr>] \<and>
   length (kept scenario_scored (Finite 3.4)) + length (dropped scenario_scored (Finite 3.4)) = 3"
  using partition_by_answer_threshold[of "Finite 3.4" scenario_scored]
    partition_by_answer_threshold[of "Finite 4.10" scenario_scored]
  by (simp add: scenario_scored_def)

subsection \<open>C2: the allowed guesses\<close>

text \<open>
  C2. For every list of scored words whose scores are numbers: when the guesses
  threshold is unset, every entry passes and \<open>allowed\<close> is the sorted list of the words
  of the whole scored list, whatever the scores; when it is set to \<open>g\<close>, \<open>allowed\<close> is
  the sorted list of the words of those entries of the whole scored list (not of
  \<open>kept\<close>) with \<^verbatim>\<open>freq >= g\<close>. So \<open>allowed\<close> can hold a word that is not in \<open>kept\<close>.
\<close>

theorem allowed_is_filter_of_scored:
  assumes "\<forall>x\<in>set scored. freq x \<noteq> NaN"
  shows "allowed scored None = sorted_py str_lt (map word scored) \<and>
         mset (allowed scored None) = mset (map word scored) \<and>
         length (allowed scored None) = length scored \<and>
         allowed scored (Some g) =
           sorted_py str_lt (map word (filter (\<lambda>x. ge_f (freq x) g) scored)) \<and>
         mset (allowed scored (Some g)) = mset (map word (filter (\<lambda>x. ge_f (freq x) g) scored)) \<and>
         (\<exists>s t g'. list_all (\<lambda>x. freq x \<noteq> NaN) s \<and>
            \<not> set (allowed s (Some g')) \<subseteq> word ` set (kept s t))"
proof -
  have all: "filter (\<lambda>x. ge_f (freq x) NegInf) scored = scored"
    using assms by (simp add: ge_f_NegInf)
  have n: "allowed scored None = sorted_py str_lt (map word scored)"
    by (simp add: allowed_filter all)
  have s: "allowed scored (Some g) =
           sorted_py str_lt (map word (filter (\<lambda>x. ge_f (freq x) g) scored))"
    by (simp add: allowed_filter)
  have ex: "list_all (\<lambda>x. freq x \<noteq> NaN) scenario_scored \<and>
      \<not> set (allowed scenario_scored (Some (Finite 0))) \<subseteq> word ` set (kept scenario_scored (Finite 3.4))"
    by (simp add: allowed_filter kept_filter set_sorted_py scenario_scored_def)
  have e: "\<exists>s t g'. list_all (\<lambda>x. freq x \<noteq> NaN) s \<and>
            \<not> set (allowed s (Some g')) \<subseteq> word ` set (kept s t)"
    using ex by blast
  show ?thesis
    using e by (simp add: n s mset_sorted_py length_sorted_py del: mset_map)
qed

theorem allowed_is_filter_of_scored_witness:
  "list_all (\<lambda>x. freq x \<noteq> NaN) scenario_scored \<and>
   mset (allowed scenario_scored None) = {#''APPLE'', ''BERRY'', ''ZYZZX''#} \<and>
   mset (allowed scenario_scored (Some (Finite 4.0))) = {#''APPLE'', ''BERRY''#} \<and>
   mset (allowed scenario_scored (Some (Finite 0))) = {#''APPLE'', ''BERRY'', ''ZYZZX''#} \<and>
   word ` set (kept scenario_scored (Finite 3.4)) = {''APPLE'', ''BERRY''}"
  using allowed_is_filter_of_scored[of scenario_scored "Finite 4.0"]
     allowed_is_filter_of_scored[of scenario_scored "Finite 0"]
  by (simp add: scenario_scored_def kept_filter mset_sorted_py)

subsection \<open>C3: the reject report\<close>

text \<open>
  C3. In a run that gets past the source check, the writes of the run after the two
  word lists are: nothing when \<open>dropped\<close> is empty (the run makes two writes, and the
  file at the rejects path is as before unless that path is one of the two word-list
  paths), and the one write of the report to the rejects path when \<open>dropped\<close> is not
  empty (three writes). The report is the header row \<^verbatim>\<open>word,zipf_frequency\<close> followed by
  one row per entry of \<open>dropped\<close> (the rows are a permutation of \<open>dropped\<close>), in
  ascending order of the score; a row is the word as a CSV field, a comma and the score
  printed by \<^verbatim>\<open>:.3f\<close>, and every row ends with CR LF. The printed score of a finite number
  is an optional sign, digits, a point and exactly three digits. A word without comma,
  double quote, CR or LF is written as it is.
\<close>

theorem reject_report_iff_dropped_nonempty:
  assumes "load_words (source a) w = Inr wds"
    and "scored = fst (score_words zipf wds w)"
    and "rows = sorted_py (\<lambda>x y. lt_f (freq x) (freq y)) (dropped scored (threshold a))"
    and "report = ''word,zipf_frequency'' @ [CR, LF] @
           concat (map (\<lambda>item. csv_field (word item) @ '','' @ format_f 3 (freq item) @ [CR, LF]) rows)"
  shows "drop (length (writes w) + 2) (writes (snd (main zipf a w))) =
           (if dropped scored (threshold a) = [] then [] else [(rejects a, report)]) \<and>
         length (writes (snd (main zipf a w))) =
           length (writes w) + (if dropped scored (threshold a) = [] then 2 else 3) \<and>
         (if dropped scored (threshold a) = []
          then rejects a = (case output_arg a of None \<Rightarrow> source a | Some p \<Rightarrow> p) \<or>
               rejects a = guesses_output a \<or>
               files (snd (main zipf a w)) (rejects a) = files w (rejects a)
          else files (snd (main zipf a w)) (rejects a) = Some report) \<and>
         length rows = length (dropped scored (threshold a)) \<and>
         mset rows = mset (dropped scored (threshold a)) \<and>
         sorted_wrt (\<lambda>x y. le_f (freq x) (freq y)) rows \<and>
         list_all (\<lambda>item. case freq item of
                      Finite v \<Rightarrow> three_decimals (format_f 3 (freq item))
                    | _ \<Rightarrow> True) rows \<and>
         list_all (\<lambda>item. csv_needs_quotes (word item) \<or> csv_field (word item) = word item) rows"
proof -
  note wr = main_writes[OF assms(1), of zipf, folded assms(2), folded assms(3)]
  note fl = main_files[OF assms(1), of zipf, folded assms(2), folded assms(3)]
  have rep: "csv_writerow [''word'', ''zipf_frequency''] @
        concat (map (\<lambda>item. csv_writerow [word item, format_f 3 (freq item)]) rows) = report"
    by (simp add: assms(4) csv_header csv_row)
  have d: "drop (length (writes w) + 2) (writes (snd (main zipf a w))) =
           (if dropped scored (threshold a) = [] then [] else [(rejects a, report)])"
    by (simp add: wr rep)
  have n: "length (writes (snd (main zipf a w))) =
           length (writes w) + (if dropped scored (threshold a) = [] then 2 else 3)"
    by (simp add: wr)
  have f: "if dropped scored (threshold a) = []
          then rejects a = (case output_arg a of None \<Rightarrow> source a | Some p \<Rightarrow> p) \<or>
               rejects a = guesses_output a \<or>
               files (snd (main zipf a w)) (rejects a) = files w (rejects a)
          else files (snd (main zipf a w)) (rejects a) = Some report"
    by (simp add: fl rep Let_def)
  have m: "mset rows = mset (dropped scored (threshold a))"
    by (simp add: assms(3) mset_sorted_py)
  have l: "length rows = length (dropped scored (threshold a))"
    by (simp add: assms(3) length_sorted_py)
  have s: "sorted_wrt (\<lambda>x y. le_f (freq x) (freq y)) rows"
    unfolding assms(3) by (rule reject_rows_ascending)
  have t: "list_all (\<lambda>item. case freq item of
                      Finite v \<Rightarrow> three_decimals (format_f 3 (freq item))
                    | _ \<Rightarrow> True) rows"
    by (simp add: list_all_iff three_decimals_format_f split: pyfloat.splits del: format_f.simps)
  have q: "list_all (\<lambda>item. csv_needs_quotes (word item) \<or> csv_field (word item) = word item) rows"
    by (simp add: list_all_iff csv_field_def)
  show ?thesis using d n f m l s t q by blast
qed

theorem reject_report_iff_dropped_nonempty_witness:
  "load_words (source strict_args) scenario_world = Inr [''APPLE'', ''BERRY'', ''ZYZZX''] \<and>
   dropped scenario_scored (threshold strict_args) \<noteq> [] \<and>
   drop (length (writes scenario_world) + 2)
     (writes (snd (main scenario_zipf strict_args scenario_world))) =
     [(''server/rejected_words.csv'',
       ''word,zipf_frequency'' @ [CR, LF] @ ''ZYZZX,0.000'' @ [CR, LF] @
       ''BERRY,4.100'' @ [CR, LF] @ ''APPLE,5.320'' @ [CR, LF])] \<and>
   load_words (source lenient_args) scenario_world = Inr [''APPLE'', ''BERRY'', ''ZYZZX''] \<and>
   dropped scenario_scored (threshold lenient_args) = [] \<and>
   drop (length (writes scenario_world) + 2)
     (writes (snd (main scenario_zipf lenient_args scenario_world))) = [] \<and>
   length (writes (snd (main scenario_zipf lenient_args scenario_world))) = 2 \<and>
   files (snd (main scenario_zipf lenient_args scenario_world)) ''server/rejected_words.csv'' = None"
proof -
  have h1: "load_words (source strict_args) scenario_world = Inr [''APPLE'', ''BERRY'', ''ZYZZX'']"
    by (simp add: strict_args_fields scenario_load)
  have h2: "load_words (source lenient_args) scenario_world = Inr [''APPLE'', ''BERRY'', ''ZYZZX'']"
    by (simp add: lenient_args_fields scenario_load)
  have w0: "writes scenario_world = []" "files scenario_world ''server/rejected_words.csv'' = None"
    by (simp_all add: scenario_world_def)
  have ne: "scenario_scored \<noteq> []"
    by (simp add: scenario_scored_def)
  show ?thesis
    using h1 h2 reject_report_iff_dropped_nonempty[OF h1 refl refl refl, of scenario_zipf]
      reject_report_iff_dropped_nonempty[OF h2 refl refl refl, of scenario_zipf]
    by (simp add: scenario_score w0 ne strict_lists lenient_lists strict_args_fields
        lenient_args_fields scenario_sorted_rows csv_field_scenario format_eval)
qed

subsection \<open>C4: the text of the two word-list files\<close>

text \<open>
  C4. In a run that gets past the source check, when \<open>kept\<close> is not empty the first
  write of the run puts into the answer-list file the words of \<open>kept\<close>, each followed by
  a line feed (so one word per line, with a line feed after the last one; no loaded word
  holds a line feed), in ascending order of Python's string comparison (code point by
  code point); the words are those of \<open>kept\<close> with their multiplicities, so repeated
  words stay, next to each other, and the order is strictly ascending when no word is
  repeated. The same holds for the second write, the allowed-guesses file, and
  \<open>allowed\<close>. After the run each of the two files holds this text, provided no later
  write of the run goes to the same path (the allowed-guesses list and the report are
  written after the answer list, the report after the allowed-guesses list).
\<close>

theorem word_list_files_sorted_one_per_line:
  assumes "load_words (source a) w = Inr wds"
    and "scored = fst (score_words zipf wds w)"
    and "answers = sorted_py str_lt (map word (kept scored (threshold a)))"
    and "guesses = allowed scored (guesses_threshold a)"
  shows "(kept scored (threshold a) \<noteq> [] \<longrightarrow>
           writes (snd (main zipf a w)) ! length (writes w) =
             (case output_arg a of None \<Rightarrow> source a | Some p \<Rightarrow> p,
              concat (map (\<lambda>x. x @ [LF]) answers))) \<and>
         (guesses \<noteq> [] \<longrightarrow>
           writes (snd (main zipf a w)) ! Suc (length (writes w)) =
             (guesses_output a, concat (map (\<lambda>x. x @ [LF]) guesses))) \<and>
         sorted_wrt str_le answers \<and>
         mset answers = mset (map word (kept scored (threshold a))) \<and>
         (distinct answers \<longrightarrow> sorted_wrt str_lt answers) \<and>
         sorted_wrt str_le guesses \<and>
         mset guesses = mset (map word (filter (\<lambda>x. ge_f (freq x)
            (case guesses_threshold a of None \<Rightarrow> NegInf | Some t \<Rightarrow> t)) scored)) \<and>
         (distinct guesses \<longrightarrow> sorted_wrt str_lt guesses) \<and>
         list_all (\<lambda>x. LF \<notin> set x) answers \<and> list_all (\<lambda>x. LF \<notin> set x) guesses \<and>
         (kept scored (threshold a) \<noteq> [] \<and>
          (case output_arg a of None \<Rightarrow> source a | Some p \<Rightarrow> p) \<noteq> guesses_output a \<and>
          (dropped scored (threshold a) = [] \<or>
           (case output_arg a of None \<Rightarrow> source a | Some p \<Rightarrow> p) \<noteq> rejects a) \<longrightarrow>
            files (snd (main zipf a w)) (case output_arg a of None \<Rightarrow> source a | Some p \<Rightarrow> p) =
              Some (concat (map (\<lambda>x. x @ [LF]) answers))) \<and>
         (guesses \<noteq> [] \<and>
          (dropped scored (threshold a) = [] \<or> guesses_output a \<noteq> rejects a) \<longrightarrow>
            files (snd (main zipf a w)) (guesses_output a) =
              Some (concat (map (\<lambda>x. x @ [LF]) guesses)))"
proof -
  have wr: "writes (snd (main zipf a w)) = writes w @
     [(case output_arg a of None \<Rightarrow> source a | Some p \<Rightarrow> p, join [LF] answers @ [LF]),
      (guesses_output a, join [LF] guesses @ [LF])] @
     (if dropped scored (threshold a) = [] then []
      else [(rejects a,
        csv_writerow [''word'', ''zipf_frequency''] @
        concat (map (\<lambda>item. csv_writerow [word item, format_f 3 (freq item)])
          (sorted_py (\<lambda>x y. lt_f (freq x) (freq y)) (dropped scored (threshold a)))))])"
    unfolding assms(2,3,4) using assms(1) by (rule main_writes)
  have ne: "kept scored (threshold a) \<noteq> [] \<Longrightarrow> answers \<noteq> []"
    by (simp add: assms(3) sorted_py_Nil_iff)
  have w1: "kept scored (threshold a) \<noteq> [] \<longrightarrow>
           writes (snd (main zipf a w)) ! length (writes w) =
             (case output_arg a of None \<Rightarrow> source a | Some p \<Rightarrow> p,
              concat (map (\<lambda>x. x @ [LF]) answers))"
    using ne by (simp add: wr join_lines)
  have w2: "guesses \<noteq> [] \<longrightarrow>
           writes (snd (main zipf a w)) ! Suc (length (writes w)) =
             (guesses_output a, concat (map (\<lambda>x. x @ [LF]) guesses))"
    by (simp add: wr join_lines nth_append)
  have g: "guesses = sorted_py str_lt (map word (filter (\<lambda>x. ge_f (freq x)
            (case guesses_threshold a of None \<Rightarrow> NegInf | Some t \<Rightarrow> t)) scored))"
    by (simp add: assms(4) allowed_filter)
  have s1: "sorted_wrt str_le answers" and s2: "sorted_wrt str_le guesses"
    by (simp_all add: assms(3) g sorted_words_ascending)
  have m1: "mset answers = mset (map word (kept scored (threshold a)))"
    by (simp add: assms(3) mset_sorted_py del: mset_map)
  have m2: "mset guesses = mset (map word (filter (\<lambda>x. ge_f (freq x)
            (case guesses_threshold a of None \<Rightarrow> NegInf | Some t \<Rightarrow> t)) scored))"
    by (simp add: g mset_sorted_py del: mset_map)
  have words: "map word scored = wds"
    by (simp add: assms(2) score_words_eq comp_def)
  have sub1: "set answers \<subseteq> set wds"
    unfolding assms(3) set_sorted_py kept_filter words[symmetric] by auto
  have sub2: "set guesses \<subseteq> set wds"
    unfolding g set_sorted_py words[symmetric] by auto
  have l1: "list_all (\<lambda>x. LF \<notin> set x) answers"
    using sub1 loaded_words_no_LF[OF assms(1)] by (auto simp: list_all_iff)
  have l2: "list_all (\<lambda>x. LF \<notin> set x) guesses"
    using sub2 loaded_words_no_LF[OF assms(1)] by (auto simp: list_all_iff)
  note fl = main_files[OF assms(1), of zipf, folded assms(2), folded assms(3), folded assms(4)]
  have f1: "kept scored (threshold a) \<noteq> [] \<and>
          (case output_arg a of None \<Rightarrow> source a | Some p \<Rightarrow> p) \<noteq> guesses_output a \<and>
          (dropped scored (threshold a) = [] \<or>
           (case output_arg a of None \<Rightarrow> source a | Some p \<Rightarrow> p) \<noteq> rejects a) \<longrightarrow>
            files (snd (main zipf a w)) (case output_arg a of None \<Rightarrow> source a | Some p \<Rightarrow> p) =
              Some (concat (map (\<lambda>x. x @ [LF]) answers))"
    using ne by (auto simp: fl Let_def join_lines)
  have f2: "guesses \<noteq> [] \<and>
          (dropped scored (threshold a) = [] \<or> guesses_output a \<noteq> rejects a) \<longrightarrow>
            files (snd (main zipf a w)) (guesses_output a) =
              Some (concat (map (\<lambda>x. x @ [LF]) guesses))"
    by (auto simp: fl Let_def join_lines)
  show ?thesis
    using w1 w2 s1 s2 m1 m2 l1 l2 f1 f2 sorted_distinct_strict by blast
qed

theorem word_list_files_sorted_one_per_line_witness:
  "load_words (source scenario_args) scenario_world = Inr [''APPLE'', ''BERRY'', ''ZYZZX''] \<and>
   kept scenario_scored (threshold scenario_args) \<noteq> [] \<and>
   allowed scenario_scored (guesses_threshold scenario_args) \<noteq> [] \<and>
   writes (snd (main scenario_zipf scenario_args scenario_world)) ! 0 =
     (''server/words.txt'', ''APPLE'' @ [LF] @ ''BERRY'' @ [LF]) \<and>
   writes (snd (main scenario_zipf scenario_args scenario_world)) ! 1 =
     (''server/allowed_guesses.txt'', ''APPLE'' @ [LF] @ ''BERRY'' @ [LF] @ ''ZYZZX'' @ [LF]) \<and>
   files (snd (main scenario_zipf scenario_args scenario_world)) ''server/words.txt'' =
     Some (''APPLE'' @ [LF] @ ''BERRY'' @ [LF]) \<and>
   files (snd (main scenario_zipf scenario_args scenario_world)) ''server/allowed_guesses.txt'' =
     Some (''APPLE'' @ [LF] @ ''BERRY'' @ [LF] @ ''ZYZZX'' @ [LF])"
proof -
  have h: "load_words (source scenario_args) scenario_world = Inr [''APPLE'', ''BERRY'', ''ZYZZX'']"
    by (simp add: scenario_args_fields scenario_load)
  have w0: "writes scenario_world = []"
    by (simp add: scenario_world_def)
  show ?thesis
    using h word_list_files_sorted_one_per_line[OF h refl refl refl, of scenario_zipf]
    by (simp add: scenario_score w0 scenario_lists scenario_sorted_words scenario_args_fields)
qed

subsection \<open>C5: the loader\<close>



subsection \<open>C6: the scorer\<close>

text \<open>
  C6. For every word sequence, \<^verbatim>\<open>score_words\<close> returns one entry per word occurrence,
  in the same order and of the same length, each entry holding the word and the oracle's
  score of its lower-cased form; the oracle is called once per occurrence, in order (a
  word that occurs twice is scored twice and appears twice). Nothing is written.
\<close>

theorem scorer_one_entry_per_occurrence:
  "fst (score_words zipf wds w) = map (\<lambda>wd. \<lparr>word = wd, freq = zipf (lower wd)\<rparr>) wds \<and>
   length (fst (score_words zipf wds w)) = length wds \<and>
   map word (fst (score_words zipf wds w)) = wds \<and>
   oracle_calls (snd (score_words zipf wds w)) = oracle_calls w @ map lower wds \<and>
   files (snd (score_words zipf wds w)) = files w \<and>
   writes (snd (score_words zipf wds w)) = writes w"
  by (simp add: score_words_eq comp_def)

theorem scorer_one_entry_per_occurrence_witness:
  "fst (score_words scenario_zipf [''APPLE'', ''ZYZZX'', ''APPLE''] empty_world) =
     [\<lparr>word = ''APPLE'', freq = Finite 5.32\<rparr>,
      \<lparr>word = ''ZYZZX'', freq = Finite 0\<rparr>,
      \<lparr>word = ''APPLE'', freq = Finite 5.32\<rparr>] \<and>
   oracle_calls (snd (score_words scenario_zipf [''APPLE'', ''ZYZZX'', ''APPLE''] empty_world)) =
     [''apple'', ''zyzzx'', ''apple'']"
  using scorer_one_entry_per_occurrence[of scenario_zipf "[''APPLE'', ''ZYZZX'', ''APPLE'']"
      empty_world]
  by (simp add: scenario_zipf_def empty_world_def lower_def lower_char_def char_of_eq_iff)

subsection \<open>C7: a missing source file\<close>

text \<open>
  C7. When the source path does not exist, \<^verbatim>\<open>main\<close> raises \<^verbatim>\<open>SystemExit\<close> with the
  message "Source file not found: ..." (exit status 1, not zero), and the world is as
  before: no file is changed, nothing has been written and the oracle has not been
  called.
\<close>

theorem missing_source_aborts:
  assumes "files w (source a) = None"
  shows "main zipf a w = (Inl (SystemExit (''Source file not found: '' @ source a)), w) \<and>
         exit_status (fst (main zipf a w)) \<noteq> 0 \<and>
         files (snd (main zipf a w)) = files w \<and>
         writes (snd (main zipf a w)) = writes w \<and>
         oracle_calls (snd (main zipf a w)) = oracle_calls w"
  using assms by (simp add: main_missing_source exists_path_def)

theorem missing_source_aborts_witness:
  "files empty_world (source scenario_args) = None \<and>
   main scenario_zipf scenario_args empty_world =
     (Inl (SystemExit ''Source file not found: server/allowed_guesses.txt''), empty_world) \<and>
   exit_status (fst (main scenario_zipf scenario_args empty_world)) = 1 \<and>
   writes (snd (main scenario_zipf scenario_args empty_world)) = []"
proof -
  have h: "files empty_world (source scenario_args) = None"
    by (simp add: empty_world_def)
  show ?thesis
    using h missing_source_aborts[OF h, of scenario_zipf]
    by (simp add: scenario_args_def empty_world_def)
qed

subsection \<open>C8: Scenario A\<close>

text \<open>
  C8. When the loader yields APPLE, BERRY, ZYZZX, the oracle scores them 5.32, 4.10 and
  0.00, the answer threshold is 3.4 and the guesses threshold is unset, the run returns
  normally and makes exactly three writes: the answer list "APPLE\nBERRY\n", the allowed
  guesses "APPLE\nBERRY\nZYZZX\n", and the reject report made of the header row and the
  single row "ZYZZX,0.000" (rows end with CR LF).
\<close>

theorem scenario_A_outputs:
  assumes "load_words (source a) w = Inr [''APPLE'', ''BERRY'', ''ZYZZX'']"
    and "zipf ''apple'' = Finite 5.32" and "zipf ''berry'' = Finite 4.10"
    and "zipf ''zyzzx'' = Finite 0.00"
    and "threshold a = Finite 3.4" and "guesses_threshold a = None"
  shows "fst (main zipf a w) = Inr () \<and>
         writes (snd (main zipf a w)) = writes w @
           [(case output_arg a of None \<Rightarrow> source a | Some p \<Rightarrow> p,
             ''APPLE'' @ [LF] @ ''BERRY'' @ [LF]),
            (guesses_output a, ''APPLE'' @ [LF] @ ''BERRY'' @ [LF] @ ''ZYZZX'' @ [LF]),
            (rejects a, ''word,zipf_frequency'' @ [CR, LF] @ ''ZYZZX,0.000'' @ [CR, LF])]"
proof -
  have lw: "lower ''APPLE'' = ''apple''" "lower ''BERRY'' = ''berry''" "lower ''ZYZZX'' = ''zyzzx''"
    by (simp_all add: lower_def lower_char_def char_of_eq_iff)
  have sc: "fst (score_words zipf [''APPLE'', ''BERRY'', ''ZYZZX''] w) = scenario_scored"
    by (simp add: score_words_eq scenario_scored_def lw assms(2-4))
  have th: "threshold a = threshold scenario_args"
    by (simp add: assms(5) scenario_args_def)
  have r: "fst (main zipf a w) = Inr ()"
    using assms(1) by (rule main_returns)
  have "writes (snd (main zipf a w)) = writes w @
           [(case output_arg a of None \<Rightarrow> source a | Some p \<Rightarrow> p,
             ''APPLE'' @ [LF] @ ''BERRY'' @ [LF]),
            (guesses_output a, ''APPLE'' @ [LF] @ ''BERRY'' @ [LF] @ ''ZYZZX'' @ [LF]),
            (rejects a, ''word,zipf_frequency'' @ [CR, LF] @ ''ZYZZX,0.000'' @ [CR, LF])]"
    unfolding main_writes[OF assms(1)] sc th assms(6)
    by (simp add: scenario_lists scenario_sorted_words sorted_py_def csv_header csv_row
        csv_field_scenario format_eval)
  with r show ?thesis by simp
qed

theorem scenario_A_outputs_witness:
  "load_words (source scenario_args) scenario_world = Inr [''APPLE'', ''BERRY'', ''ZYZZX''] \<and>
   scenario_zipf ''apple'' = Finite 5.32 \<and> scenario_zipf ''berry'' = Finite 4.10 \<and>
   scenario_zipf ''zyzzx'' = Finite 0.00 \<and>
   threshold scenario_args = Finite 3.4 \<and> guesses_threshold scenario_args = None \<and>
   main scenario_zipf scenario_args scenario_world =
     (Inr (), snd (main scenario_zipf scenario_args scenario_world)) \<and>
   writes (snd (main scenario_zipf scenario_args scenario_world)) =
     [(''server/words.txt'', ''APPLE'' @ [LF] @ ''BERRY'' @ [LF]),
      (''server/allowed_guesses.txt'', ''APPLE'' @ [LF] @ ''BERRY'' @ [LF] @ ''ZYZZX'' @ [LF]),
      (''server/rejected_words.csv'',
       ''word,zipf_frequency'' @ [CR, LF] @ ''ZYZZX,0.000'' @ [CR, LF])]"
proof -
  have h1: "load_words (source scenario_args) scenario_world = Inr [''APPLE'', ''BERRY'', ''ZYZZX'']"
    by (simp add: scenario_args_fields scenario_load)
  have h2: "scenario_zipf ''apple'' = Finite 5.32" and h3: "scenario_zipf ''berry'' = Finite 4.10"
    and h4: "scenario_zipf ''zyzzx'' = Finite 0.00"
    by (simp_all add: scenario_zipf_def)
  have h5: "threshold scenario_args = Finite 3.4" and h6: "guesses_threshold scenario_args = None"
    by (simp_all add: scenario_args_def)
  have w0: "writes scenario_world = []"
    by (simp add: scenario_world_def)
  have p: "main scenario_zipf scenario_args scenario_world =
      (fst (main scenario_zipf scenario_args scenario_world),
       snd (main scenario_zipf scenario_args scenario_world))"
    by simp
  show ?thesis
    using scenario_A_outputs[OF h1 h2 h3 h4 h5 h6] h1 h2 h3 h4 h5 h6 p
    by (simp add: w0 scenario_args_fields)
qed

subsection \<open>C9: an empty word list\<close>

text \<open>
  C9. When \<open>kept\<close> is empty the answer-list file is still written, and its text is one
  line feed; the same for \<open>allowed\<close> and the allowed-guesses file. \<^verbatim>\<open>save_words\<close> always
  writes its file and never writes an empty text; after every run that gets past the
  source check both word-list paths hold a non-empty file.
\<close>

theorem empty_word_list_is_one_newline:
  assumes "load_words (source a) w = Inr wds"
    and "scored = fst (score_words zipf wds w)"
  shows "(kept scored (threshold a) = [] \<longrightarrow>
           writes (snd (main zipf a w)) ! length (writes w) =
             (case output_arg a of None \<Rightarrow> source a | Some p \<Rightarrow> p, [LF])) \<and>
         (allowed scored (guesses_threshold a) = [] \<longrightarrow>
           writes (snd (main zipf a w)) ! Suc (length (writes w)) = (guesses_output a, [LF])) \<and>
         length (writes w) + 2 \<le> length (writes (snd (main zipf a w))) \<and>
         fst (writes (snd (main zipf a w)) ! length (writes w)) =
           (case output_arg a of None \<Rightarrow> source a | Some p \<Rightarrow> p) \<and>
         snd (writes (snd (main zipf a w)) ! length (writes w)) \<noteq> [] \<and>
         fst (writes (snd (main zipf a w)) ! Suc (length (writes w))) = guesses_output a \<and>
         snd (writes (snd (main zipf a w)) ! Suc (length (writes w))) \<noteq> [] \<and>
         files (snd (main zipf a w)) (case output_arg a of None \<Rightarrow> source a | Some p \<Rightarrow> p)
           \<notin> {None, Some []} \<and>
         files (snd (main zipf a w)) (guesses_output a) \<notin> {None, Some []} \<and>
         (\<forall>p ws w'. writes (save_words p ws w') = writes w' @ [(p, join [LF] ws @ [LF])] \<and>
            files (save_words p ws w') p = Some (join [LF] ws @ [LF]) \<and>
            join [LF] ws @ [LF] \<noteq> []) \<and>
         (\<forall>p w'. files (save_words p [] w') p = Some [LF])"
proof -
  note wr = main_writes[OF assms(1), of zipf, folded assms(2)]
  note fl = main_files[OF assms(1), of zipf, folded assms(2)]
  have k: "kept scored (threshold a) = [] \<longrightarrow>
           writes (snd (main zipf a w)) ! length (writes w) =
             (case output_arg a of None \<Rightarrow> source a | Some p \<Rightarrow> p, [LF])"
    by (simp add: wr sorted_py_def)
  have g: "allowed scored (guesses_threshold a) = [] \<longrightarrow>
           writes (snd (main zipf a w)) ! Suc (length (writes w)) = (guesses_output a, [LF])"
    by (simp add: wr nth_append)
  have n: "length (writes w) + 2 \<le> length (writes (snd (main zipf a w)))"
    by (simp add: wr)
  have e1: "fst (writes (snd (main zipf a w)) ! length (writes w)) =
           (case output_arg a of None \<Rightarrow> source a | Some p \<Rightarrow> p) \<and>
         snd (writes (snd (main zipf a w)) ! length (writes w)) \<noteq> []"
    by (simp add: wr)
  have e2: "fst (writes (snd (main zipf a w)) ! Suc (length (writes w))) = guesses_output a \<and>
         snd (writes (snd (main zipf a w)) ! Suc (length (writes w))) \<noteq> []"
    by (simp add: wr nth_append)
  have f1: "files (snd (main zipf a w)) (case output_arg a of None \<Rightarrow> source a | Some p \<Rightarrow> p)
           \<notin> {None, Some []}"
    by (simp add: fl Let_def)
  have f2: "files (snd (main zipf a w)) (guesses_output a) \<notin> {None, Some []}"
    by (simp add: fl Let_def)
  have s: "\<forall>p ws w'. writes (save_words p ws w') = writes w' @ [(p, join [LF] ws @ [LF])] \<and>
            files (save_words p ws w') p = Some (join [LF] ws @ [LF]) \<and>
            join [LF] ws @ [LF] \<noteq> []"
    by (simp add: save_words_eq)
  have s0: "\<forall>p w'. files (save_words p [] w') p = Some [LF]"
    by (simp add: save_words_eq)
  show ?thesis using k g n e1 e2 f1 f2 s s0 by blast
qed

theorem empty_word_list_is_one_newline_witness:
  "load_words (source strict_args) scenario_world = Inr [''APPLE'', ''BERRY'', ''ZYZZX''] \<and>
   kept scenario_scored (threshold strict_args) = [] \<and>
   allowed scenario_scored (guesses_threshold strict_args) = [] \<and>
   writes (snd (main scenario_zipf strict_args scenario_world)) ! 0 = (''server/words.txt'', [LF]) \<and>
   writes (snd (main scenario_zipf strict_args scenario_world)) ! 1 =
     (''server/allowed_guesses.txt'', [LF])"
proof -
  have h: "load_words (source strict_args) scenario_world = Inr [''APPLE'', ''BERRY'', ''ZYZZX'']"
    by (simp add: strict_args_fields scenario_load)
  have w0: "writes scenario_world = []"
    by (simp add: scenario_world_def)
  show ?thesis
    using h empty_word_list_is_one_newline[OF h refl, of scenario_zipf]
    by (simp add: scenario_score w0 strict_lists strict_args_fields)
qed

subsection \<open>C10: a lower threshold lets more through\<close>

text \<open>
  C10. For thresholds \<^verbatim>\<open>t1 <= t2\<close>, every score that passes the filter of \<open>t2\<close> passes the
  filter of \<open>t1\<close>, so the entries kept at \<open>t2\<close> are among those kept at \<open>t1\<close>. In
  particular, when the guesses threshold \<open>t1\<close> is at most the answer threshold \<open>t2\<close>
  (and also when the guesses threshold is unset), every word of the answer list is in
  the allowed-guesses list, as often as it is in the answer list.
\<close>

theorem threshold_filter_antitone:
  assumes "le_f t1 t2"
  shows "(\<forall>x. ge_f x t2 \<longrightarrow> ge_f x t1) \<and>
         set (kept scored t2) \<subseteq> set (kept scored t1) \<and>
         mset (kept scored t2) \<subseteq># mset (kept scored t1) \<and>
         set (sorted_py str_lt (map word (kept scored t2))) \<subseteq> set (allowed scored (Some t1)) \<and>
         mset (sorted_py str_lt (map word (kept scored t2))) \<subseteq># mset (allowed scored (Some t1)) \<and>
         set (sorted_py str_lt (map word (kept scored t2))) \<subseteq> set (allowed scored None)"
proof -
  have a: "\<forall>x. ge_f x t2 \<longrightarrow> ge_f x t1"
    using assms ge_f_antitone by blast
  have m: "mset (kept scored t2) \<subseteq># mset (kept scored t1)"
    unfolding kept_filter mset_filter
    by (rule filter_mset_mono_strong) (use a in auto)
  have mw: "mset (map word (kept scored t2)) \<subseteq># mset (map word (kept scored t1))"
    using m by (simp add: image_mset_subseteq_mono)
  have al: "allowed scored (Some t1) = sorted_py str_lt (map word (kept scored t1))"
    by (simp add: allowed_filter kept_filter)
  have mm: "mset (sorted_py str_lt (map word (kept scored t2))) \<subseteq># mset (allowed scored (Some t1))"
    using mw by (simp add: al mset_sorted_py del: mset_map)
  have ninf: "\<forall>x. ge_f x t2 \<longrightarrow> ge_f x NegInf"
    using ge_f_not_NaN ge_f_NegInf by blast
  have n: "set (sorted_py str_lt (map word (kept scored t2))) \<subseteq> set (allowed scored None)"
    using ninf by (auto simp: allowed_filter kept_filter set_sorted_py)
  show ?thesis
    using a m mm n set_mset_mono[OF m] set_mset_mono[OF mm] by simp
qed

theorem threshold_filter_antitone_witness:
  "le_f (Finite 0) (Finite 3.4) \<and>
   kept scenario_scored (Finite 3.4) =
     [\<lparr>word = ''APPLE'', freq = Finite 5.32\<rparr>, \<lparr>word = ''BERRY'', freq = Finite 4.10\<rparr>] \<and>
   kept scenario_scored (Finite 0) = scenario_scored \<and>
   set (sorted_py str_lt (map word (kept scenario_scored (Finite 3.4))))
     \<subseteq> set (allowed scenario_scored (Some (Finite 0)))"
proof -
  have h: "le_f (Finite 0) (Finite 3.4)" by (simp add: le_f_def)
  show ?thesis
    using h threshold_filter_antitone[OF h, of scenario_scored]
    by (simp add: scenario_scored_def kept_filter)
qed

end
